theory Spec2Isabelle
  imports Complex_Main "HOL-Library.FSet"
begin

section \<open>Data model\<close>

text \<open>
  A Python \<open>str\<close> is a sequence of Unicode code points. Scores are Python floats; they
  are modelled as exact reals, so rounding is not part of the model.
\<close>

type_synonym codepoint = nat
type_synonym pystr = "codepoint list"

text \<open>
  The ticket dictionaries are untyped at run time. A field holds a string, \<open>None\<close> or a
  number; the latter two are what "malformed candidate data" looks like.
\<close>

datatype pyval = PyStr pystr | PyNone | PyInt int

fun truthy :: "pyval \<Rightarrow> bool" where
  "truthy (PyStr s) = (s \<noteq> [])"
| "truthy PyNone = False"
| "truthy (PyInt n) = (n \<noteq> 0)"

datatype exn = AttributeError | TypeError

text \<open>
  The library behaviour the module relies on and does not define: \<open>str.lower\<close>,
  \<open>unicodedata.normalize('NFD', _)\<close>, the test \<open>unicodedata.category(c) = 'Mn'\<close>, the
  regular-expression classes \<open>\w\<close> and \<open>\s\<close> (the latter is also the whitespace of
  \<open>str.split\<close> and \<open>str.strip\<close>), and \<open>difflib.SequenceMatcher(None, a, b).ratio()\<close>.
\<close>

record pylib =
  str_lower :: "pystr \<Rightarrow> pystr"
  nfd :: "pystr \<Rightarrow> pystr"
  category_Mn :: "codepoint \<Rightarrow> bool"
  re_word :: "codepoint \<Rightarrow> bool"
  re_space :: "codepoint \<Rightarrow> bool"
  seq_ratio :: "pystr \<Rightarrow> pystr \<Rightarrow> real"

section \<open>TextSimilarity\<close>

subsection \<open>normalize_text\<close>

text \<open>\<open>re.sub(r'[^\w\s]', ' ', text)\<close>: every character that is neither a word character
  nor whitespace becomes a space (code point 32).\<close>

definition sub_nonword :: "pylib \<Rightarrow> pystr \<Rightarrow> pystr" where
  "sub_nonword L t = map (\<lambda>c. if re_word L c \<or> re_space L c then c else 32) t"

text \<open>\<open>re.sub(r'\s+', ' ', text)\<close>: every maximal run of whitespace becomes one space.\<close>

function collapse_ws :: "pylib \<Rightarrow> pystr \<Rightarrow> pystr" where
  "collapse_ws L [] = []"
| "collapse_ws L (c # cs) =
     (if re_space L c then 32 # collapse_ws L (dropWhile (re_space L) cs)
      else c # collapse_ws L cs)"
  by pat_completeness auto
termination
  by (relation "measure (\<lambda>(L, t). length t)")
     (auto simp: length_dropWhile_le less_Suc_eq_le)

text \<open>\<open>str.strip()\<close>\<close>

definition strip_ws :: "pylib \<Rightarrow> pystr \<Rightarrow> pystr" where
  "strip_ws L t = rev (dropWhile (re_space L) (rev (dropWhile (re_space L) t)))"

text \<open>\<open>str.split()\<close> without arguments: the maximal runs of non-whitespace.\<close>

function split_ws :: "pylib \<Rightarrow> pystr \<Rightarrow> pystr list" where
  "split_ws L [] = []"
| "split_ws L (c # cs) =
     (if re_space L c then split_ws L cs
      else (c # takeWhile (\<lambda>x. \<not> re_space L x) cs)
             # split_ws L (dropWhile (\<lambda>x. \<not> re_space L x) cs))"
  by pat_completeness auto
termination
  by (relation "measure (\<lambda>(L, t). length t)")
     (auto simp: length_dropWhile_le less_Suc_eq_le)

fun normalize_text :: "pylib \<Rightarrow> pyval \<Rightarrow> exn + pystr" where
  "normalize_text L v =
     (if \<not> truthy v then Inr []
      else case v of
        PyStr s \<Rightarrow>
          Inr (strip_ws L (collapse_ws L (sub_nonword L
                 (filter (\<lambda>c. \<not> category_Mn L c) (nfd L (str_lower L s))))))
      | _ \<Rightarrow> Inl AttributeError)"

subsection \<open>extract_keywords\<close>

definition ascii :: "string \<Rightarrow> pystr" where
  "ascii s = map of_char s"

definition stop_words :: "pystr list" where
  "stop_words = map ascii
     [''o'', ''a'', ''os'', ''as'', ''de'', ''da'', ''do'', ''dos'', ''das'', ''que'', ''e'',
      ''em'', ''um'', ''uma'', ''uns'', ''umas'', ''para'', ''com'', ''sem'', ''como'',
      ''por'', ''no'', ''na'', ''nos'', ''nas'', ''se'', ''te'', ''lo'', ''le'', ''lhe'',
      ''mais'', ''mas'', ''muito'', ''muita'', ''muitos'', ''muitas'', ''pouco'', ''pouca'',
      ''poucos'', ''poucas'', ''bem'', ''mal'', ''ainda'', ''nem'', ''sim'', ''ou'',
      ''outra'', ''outro'', ''outras'', ''outros'', ''todo'', ''toda'', ''todos'', ''todas'',
      ''qual'', ''quais'', ''qualquer'', ''quaisquer'', ''algum'', ''alguma'', ''alguns'',
      ''algumas'', ''nenhum'', ''nenhuma'', ''nenhuns'', ''nenhumas'', ''cada'',
      ''the'', ''and'', ''or'', ''but'', ''in'', ''on'', ''at'', ''to'', ''for'', ''of'',
      ''with'', ''by'', ''from'', ''up'', ''about'', ''into'', ''through'', ''during'',
      ''before'', ''after'', ''above'', ''below'', ''between'', ''among'', ''under'',
      ''over'', ''can'', ''cannot'', ''will'', ''just'', ''should'', ''could'', ''would'',
      ''might'', ''must'', ''shall'', ''may'', ''this'', ''that'', ''these'', ''those'',
      ''i'', ''you'', ''he'', ''she'', ''it'', ''we'', ''they'', ''what'', ''which'', ''who'',
      ''when'', ''where'', ''why'', ''how'', ''all'', ''each'', ''every'', ''both'', ''few'',
      ''more'', ''most'', ''other'', ''some'', ''such'', ''only'', ''own'', ''same'', ''so'',
      ''than'', ''too'', ''very'', ''now'',
      ''el'', ''la'', ''y'', ''en'', ''un'', ''es'', ''su'', ''son'', ''con'', ''al'', ''una'',
      ''del'', ''los'', ''las'', ''si'', ''me'', ''ya'', ''muy'', ''pero'', ''ser'', ''hay'',
      ''este'', ''esta'', ''esto'', ''tiene'', ''hacer'', ''estar'', ''unos'', ''unas'',
      ''mi'', ''mis'', ''tu'', ''tus'', ''sus'', ''nuestro'', ''nuestra'', ''nuestros'',
      ''nuestras'']
     @ [[106, 225], [116, 97, 109, 98, 233, 109], [115, 243], [110, 227, 111]]"

fun extract_keywords :: "pylib \<Rightarrow> pyval \<Rightarrow> nat \<Rightarrow> exn + pystr fset" where
  "extract_keywords L v min_length =
     (if \<not> truthy v then Inr {||}
      else case normalize_text L v of
        Inl e \<Rightarrow> Inl e
      | Inr normalized \<Rightarrow>
          Inr (fset_of_list
                 (filter (\<lambda>w. min_length \<le> length w \<and> w \<notin> set stop_words)
                    (split_ws L normalized))))"

subsection \<open>jaccard_similarity\<close>

definition jaccard_similarity :: "pystr fset \<Rightarrow> pystr fset \<Rightarrow> real" where
  "jaccard_similarity set1 set2 =
     (if set1 = {||} \<and> set2 = {||} then 1
      else if set1 = {||} \<or> set2 = {||} then 0
      else let intersection = fcard (set1 |\<inter>| set2);
               union = fcard (set1 |\<union>| set2)
           in if 0 < union then real intersection / real union else 0)"

subsection \<open>cosine_similarity\<close>

text \<open>
  The vocabulary is a Python set; both count vectors are read off the same iteration of
  it, so only the sums over the vocabulary matter. The model iterates it as
  \<open>remdups (words1 @ words2)\<close>. The counts and their sums are Python integers.
\<close>

fun cosine_similarity :: "pylib \<Rightarrow> pyval \<Rightarrow> pyval \<Rightarrow> exn + real" where
  "cosine_similarity L text1 text2 =
     (if \<not> truthy text1 \<or> \<not> truthy text2 then Inr 0
      else case normalize_text L text1 of
        Inl e \<Rightarrow> Inl e
      | Inr n1 \<Rightarrow>
      (case normalize_text L text2 of
        Inl e \<Rightarrow> Inl e
      | Inr n2 \<Rightarrow>
          let words1 = split_ws L n1; words2 = split_ws L n2
          in if words1 = [] \<or> words2 = [] then Inr 0
             else
               let vocab = remdups (words1 @ words2);
                   vec1 = map (count_list words1) vocab;
                   vec2 = map (count_list words2) vocab;
                   dot_product = sum_list (map (\<lambda>(a, b). a * b) (zip vec1 vec2));
                   norm1 = sqrt (real (sum_list (map (\<lambda>a. a * a) vec1)));
                   norm2 = sqrt (real (sum_list (map (\<lambda>b. b * b) vec2)))
               in if norm1 = 0 \<or> norm2 = 0 then Inr 0
                  else Inr (real dot_product / (norm1 * norm2))))"

subsection \<open>levenshtein_distance and levenshtein_similarity\<close>

text \<open>\<open>len(x)\<close> raises \<open>TypeError\<close> on \<open>None\<close> and on a number.\<close>

fun py_len :: "pyval \<Rightarrow> exn + nat" where
  "py_len (PyStr s) = Inr (length s)"
| "py_len _ = Inl TypeError"

text \<open>
  The matrix \<open>dp\<close> of \<open>(m + 1) \<times> (n + 1)\<close> zeros, its first column and first row set by the two
  initialising loops, then filled row by row. Every index the loops use is in range.
\<close>

definition dp_init :: "nat \<Rightarrow> nat \<Rightarrow> nat list list" where
  "dp_init m n =
     (let dp0 = replicate (m + 1) (replicate (n + 1) 0);
          dp1 = fold (\<lambda>i dp. dp[i := (dp ! i)[0 := i]]) [0..<m + 1] dp0
      in fold (\<lambda>j dp. dp[0 := (dp ! 0)[j := j]]) [0..<n + 1] dp1)"

definition dp_cell :: "pystr \<Rightarrow> pystr \<Rightarrow> nat \<Rightarrow> nat \<Rightarrow> nat list list \<Rightarrow> nat list list" where
  "dp_cell text1 text2 i j dp =
     (if text1 ! (i - 1) = text2 ! (j - 1)
      then dp[i := (dp ! i)[j := dp ! (i - 1) ! (j - 1)]]
      else dp[i := (dp ! i)[j := 1 + min (dp ! (i - 1) ! j)
                                       (min (dp ! i ! (j - 1)) (dp ! (i - 1) ! (j - 1)))]])"

definition dp_fill :: "pystr \<Rightarrow> pystr \<Rightarrow> nat list list \<Rightarrow> nat list list" where
  "dp_fill text1 text2 dp =
     fold (\<lambda>i dp. fold (\<lambda>j dp. dp_cell text1 text2 i j dp) [1..<length text2 + 1] dp)
       [1..<length text1 + 1] dp"

fun levenshtein_distance :: "pylib \<Rightarrow> pyval \<Rightarrow> pyval \<Rightarrow> exn + nat" where
  "levenshtein_distance L text1 text2 =
     (if \<not> truthy text1 then (if truthy text2 then py_len text2 else Inr 0)
      else if \<not> truthy text2 then py_len text1
      else case normalize_text L text1 of
        Inl e \<Rightarrow> Inl e
      | Inr n1 \<Rightarrow>
      (case normalize_text L text2 of
        Inl e \<Rightarrow> Inl e
      | Inr n2 \<Rightarrow>
          Inr (dp_fill n1 n2 (dp_init (length n1) (length n2)) ! length n1 ! length n2)))"

fun levenshtein_similarity :: "pylib \<Rightarrow> pyval \<Rightarrow> pyval \<Rightarrow> exn + real" where
  "levenshtein_similarity L text1 text2 =
     (if \<not> truthy text1 \<and> \<not> truthy text2 then Inr 1
      else if \<not> truthy text1 \<or> \<not> truthy text2 then Inr 0
      else case levenshtein_distance L text1 text2 of
        Inl e \<Rightarrow> Inl e
      | Inr distance \<Rightarrow>
      (case py_len text1 of
        Inl e \<Rightarrow> Inl e
      | Inr len1 \<Rightarrow>
      (case py_len text2 of
        Inl e \<Rightarrow> Inl e
      | Inr len2 \<Rightarrow>
          let max_len = max len1 len2
          in Inr (if 0 < max_len then 1 - real distance / real max_len else 1))))"

subsection \<open>tfidf_similarity\<close>

fun tfidf_similarity :: "pylib \<Rightarrow> pyval \<Rightarrow> pyval \<Rightarrow> exn + real" where
  "tfidf_similarity L text1 text2 =
     (if \<not> truthy text1 \<or> \<not> truthy text2 then Inr 0
      else case normalize_text L text1 of
        Inl e \<Rightarrow> Inl e
      | Inr n1 \<Rightarrow>
      (case normalize_text L text2 of
        Inl e \<Rightarrow> Inl e
      | Inr n2 \<Rightarrow>
          let words1 = split_ws L n1; words2 = split_ws L n2
          in if words1 = [] \<or> words2 = [] then Inr 0
             else
               let vocab = remdups (words1 @ words2);
                   tfidf = (\<lambda>word words.
                     let tf = real (count_list words word) / real (length words);
                         df = (if word \<in> set words1 then 1 else 0)
                              + (if word \<in> set words2 then 1 else (0::nat));
                         idf = ln (2 / real (df + 1)) + 1
                     in tf * idf);
                   vec1 = map (\<lambda>word. tfidf word words1) vocab;
                   vec2 = map (\<lambda>word. tfidf word words2) vocab;
                   dot_product = sum_list (map (\<lambda>(a, b). a * b) (zip vec1 vec2));
                   norm1 = sqrt (sum_list (map (\<lambda>a. a * a) vec1));
                   norm2 = sqrt (sum_list (map (\<lambda>b. b * b) vec2))
               in if norm1 = 0 \<or> norm2 = 0 then Inr 0
                  else Inr (dot_product / (norm1 * norm2))))"

subsection \<open>sequence_similarity and combined_similarity\<close>

fun sequence_similarity :: "pylib \<Rightarrow> pyval \<Rightarrow> pyval \<Rightarrow> exn + real" where
  "sequence_similarity L text1 text2 =
     (if \<not> truthy text1 \<or> \<not> truthy text2 then Inr 0
      else case normalize_text L text1 of
        Inl e \<Rightarrow> Inl e
      | Inr norm1 \<Rightarrow>
      (case normalize_text L text2 of
        Inl e \<Rightarrow> Inl e
      | Inr norm2 \<Rightarrow> Inr (seq_ratio L norm1 norm2)))"

fun combined_similarity :: "pylib \<Rightarrow> pyval \<Rightarrow> pyval \<Rightarrow> pyval \<Rightarrow> pyval \<Rightarrow> exn + real" where
  "combined_similarity L text1 text2 title1 title2 =
     (if \<not> truthy text1 \<or> \<not> truthy text2 then Inr 0
      else case sequence_similarity L text1 text2 of
        Inl e \<Rightarrow> Inl e
      | Inr seq_sim \<Rightarrow>
      (case cosine_similarity L text1 text2 of
        Inl e \<Rightarrow> Inl e
      | Inr cos_sim \<Rightarrow>
      (case extract_keywords L text1 3 of
        Inl e \<Rightarrow> Inl e
      | Inr keywords1 \<Rightarrow>
      (case extract_keywords L text2 3 of
        Inl e \<Rightarrow> Inl e
      | Inr keywords2 \<Rightarrow>
      (case (if truthy title1 \<and> truthy title2 then sequence_similarity L title1 title2
             else Inr 0) of
        Inl e \<Rightarrow> Inl e
      | Inr title_sim \<Rightarrow>
          Inr (min 1 (30 / 100 * seq_sim + 30 / 100 * cos_sim
                      + 25 / 100 * jaccard_similarity keywords1 keywords2
                      + 15 / 100 * title_sim)))))))"

section \<open>SimilarityService\<close>

record service =
  max_workers :: int
  max_items :: int

text \<open>
  The result dictionary of one pair. A key that the dictionary may lack is an optional
  field: the five diagnostic scores are absent from an error result, \<open>error\<close> is absent
  from a regular one.
\<close>

record sim_result =
  id1 :: pyval
  id2 :: pyval
  sequence :: "real option"
  cosine :: "real option"
  jaccard :: "real option"
  levenshtein :: "real option"
  tfidf :: "real option"
  error :: "exn option"
  combined :: real

type_synonym pair_args = "pyval \<times> pyval \<times> pyval \<times> pyval \<times> pyval \<times> pyval"

text \<open>The body of the \<open>try\<close> block of \<open>_calculate_single_similarity\<close>, in evaluation order.\<close>

fun calculate_scores :: "pylib \<Rightarrow> pair_args \<Rightarrow> exn + sim_result" where
  "calculate_scores L (i1, text1, title1, i2, text2, title2) =
     (case sequence_similarity L text1 text2 of
        Inl e \<Rightarrow> Inl e
      | Inr seq_v \<Rightarrow>
      (case cosine_similarity L text1 text2 of
        Inl e \<Rightarrow> Inl e
      | Inr cos_v \<Rightarrow>
      (case extract_keywords L text1 3 of
        Inl e \<Rightarrow> Inl e
      | Inr k1 \<Rightarrow>
      (case extract_keywords L text2 3 of
        Inl e \<Rightarrow> Inl e
      | Inr k2 \<Rightarrow>
      (case levenshtein_similarity L text1 text2 of
        Inl e \<Rightarrow> Inl e
      | Inr lev_v \<Rightarrow>
      (case tfidf_similarity L text1 text2 of
        Inl e \<Rightarrow> Inl e
      | Inr tfidf_v \<Rightarrow>
      (case combined_similarity L text1 text2 title1 title2 of
        Inl e \<Rightarrow> Inl e
      | Inr comb_v \<Rightarrow>
          Inr \<lparr>id1 = i1, id2 = i2, sequence = Some seq_v, cosine = Some cos_v,
               jaccard = Some (jaccard_similarity k1 k2), levenshtein = Some lev_v,
               tfidf = Some tfidf_v, error = None, combined = comb_v\<rparr>)))))))"

fun calculate_single_similarity :: "pylib \<Rightarrow> pair_args \<Rightarrow> sim_result" where
  "calculate_single_similarity L (i1, text1, title1, i2, text2, title2) =
     (case calculate_scores L (i1, text1, title1, i2, text2, title2) of
        Inr results \<Rightarrow> results
      | Inl e \<Rightarrow>
          \<lparr>id1 = i1, id2 = i2, sequence = None, cosine = None, jaccard = None,
           levenshtein = None, tfidf = None, error = Some e, combined = 0\<rparr>)"

subsection \<open>Tickets, slices and the worker pool\<close>

type_synonym ticket = "string \<rightharpoonup> pyval"

text \<open>\<open>ticket.get(key, '')\<close>\<close>

definition ticket_get :: "ticket \<Rightarrow> string \<Rightarrow> pyval" where
  "ticket_get t k = (case t k of Some v \<Rightarrow> v | None \<Rightarrow> PyStr [])"

text \<open>The slice \<open>xs[:k]\<close>; a negative \<open>k\<close> counts from the end.\<close>

definition py_take :: "int \<Rightarrow> 'a list \<Rightarrow> 'a list" where
  "py_take k xs = (if 0 \<le> k then take (nat k) xs else take (length xs - nat (- k)) xs)"

text \<open>
  What the process pool does is not determined by the arguments of the call. Either the
  \<open>with ProcessPoolExecutor\<close> block raises before a result was collected (\<open>PoolFailed\<close>), or
  \<open>as_completed\<close> hands over the futures in some order (\<open>PoolCompleted\<close>): each event names
  the position of the task in the submitted list and says whether \<open>future.result\<close>
  returned the worker's dictionary or raised.
\<close>

datatype future_outcome = Returned | Raised

datatype pool_run = PoolFailed | PoolCompleted "(nat \<times> future_outcome) list"

text \<open>The loop over \<open>as_completed\<close>; \<open>similarities\<close> is the list being appended to.\<close>

fun collect_completed ::
  "pylib \<Rightarrow> real \<Rightarrow> pair_args list \<Rightarrow> (nat \<times> future_outcome) list \<Rightarrow> sim_result list
     \<Rightarrow> sim_result list" where
  "collect_completed L threshold args_list [] similarities = similarities"
| "collect_completed L threshold args_list ((i, out) # evs) similarities =
     (if i < length args_list \<and> out = Returned
      then let result = calculate_single_similarity L (args_list ! i)
           in collect_completed L threshold args_list evs
                (if error result = None \<and> threshold \<le> combined result
                 then similarities @ [result] else similarities)
      else collect_completed L threshold args_list evs similarities)"

text \<open>The sequential loop of the fallback.\<close>

fun collect_sequential ::
  "pylib \<Rightarrow> real \<Rightarrow> pair_args list \<Rightarrow> sim_result list \<Rightarrow> sim_result list" where
  "collect_sequential L threshold [] similarities = similarities"
| "collect_sequential L threshold (args # rest) similarities =
     (let result = calculate_single_similarity L args
      in collect_sequential L threshold rest
           (if error result = None \<and> threshold \<le> combined result
            then similarities @ [result] else similarities))"

text \<open>\<open>similarities.sort(key=lambda x: x.get('combined', 0), reverse=True)\<close>: a stable sort,
  largest score first.\<close>

definition sort_by_combined :: "sim_result list \<Rightarrow> sim_result list" where
  "sort_by_combined similarities = sort_key (\<lambda>x. - combined x) similarities"

subsection \<open>find_similar_tickets\<close>

definition find_similar_tickets ::
  "service \<Rightarrow> pylib \<Rightarrow> pool_run \<Rightarrow> ticket \<Rightarrow> ticket list \<Rightarrow> real \<Rightarrow> int \<Rightarrow> sim_result list" where
  "find_similar_tickets self L pool target_ticket candidate_tickets threshold max_results =
     (if candidate_tickets = [] then []
      else
        let candidates =
              (if max_items self < int (length candidate_tickets)
               then py_take (max_items self) candidate_tickets else candidate_tickets);
            target_text = ticket_get target_ticket ''content'';
            target_title = ticket_get target_ticket ''title'';
            args_list =
              map (\<lambda>ticket. (ticket_get ticket ''id'', target_text, target_title,
                             ticket_get ticket ''id'', ticket_get ticket ''content'',
                             ticket_get ticket ''title'')) candidates;
            similarities =
              (case pool of
                 PoolCompleted evs \<Rightarrow> collect_completed L threshold args_list evs []
               | PoolFailed \<Rightarrow> collect_sequential L threshold args_list [])
        in py_take max_results (sort_by_combined similarities))"

subsection \<open>calculate_similarity_matrix\<close>

definition matrix_pairs :: "ticket list \<Rightarrow> pair_args list" where
  "matrix_pairs tickets =
     concat (map (\<lambda>i. map (\<lambda>j.
         (ticket_get (tickets ! i) ''id'', ticket_get (tickets ! i) ''content'',
          ticket_get (tickets ! i) ''title'', ticket_get (tickets ! j) ''id'',
          ticket_get (tickets ! j) ''content'', ticket_get (tickets ! j) ''title''))
       [i + 1..<length tickets]) [0..<length tickets])"

definition calculate_similarity_matrix ::
  "service \<Rightarrow> pylib \<Rightarrow> pool_run \<Rightarrow> ticket list \<Rightarrow> real \<Rightarrow> sim_result list" where
  "calculate_similarity_matrix self L pool tickets0 threshold =
     (if length tickets0 < 2 then []
      else
        let tickets =
              (if max_items self < int (length tickets0)
               then py_take (max_items self) tickets0 else tickets0);
            pairs = matrix_pairs tickets;
            similarities =
              (case pool of
                 PoolCompleted evs \<Rightarrow> collect_completed L threshold pairs evs []
               | PoolFailed \<Rightarrow> [])
        in sort_by_combined similarities)"

section \<open>The library on ASCII text\<close>

text \<open>
  A concrete library for evaluating the functions above: what CPython does on text whose
  code points are below 128. There \<open>str.lower\<close> maps \<open>A\<close>..\<open>Z\<close> to \<open>a\<close>..\<open>z\<close>, NFD changes
  nothing, no character has category Mn, \<open>\w\<close> is \<open>[A-Za-z0-9_]\<close> and \<open>\s\<close> is the code points
  9..13 and 28..32. \<open>SequenceMatcher\<close> is difflib's matcher without junk: the leftmost
  longest common block, then recursively the pieces to its left and to its right, and the
  ratio \<open>2 * M / T\<close> (on a second text of 200 characters or more difflib also applies
  its popularity heuristic, which is not modelled).
\<close>

definition ascii_lower :: "pystr \<Rightarrow> pystr" where
  "ascii_lower t = map (\<lambda>c. if 65 \<le> c \<and> c \<le> 90 then c + 32 else c) t"

definition ascii_word :: "codepoint \<Rightarrow> bool" where
  "ascii_word c = ((48 \<le> c \<and> c \<le> 57) \<or> (65 \<le> c \<and> c \<le> 90) \<or> c = 95 \<or> (97 \<le> c \<and> c \<le> 122))"

definition ascii_space :: "codepoint \<Rightarrow> bool" where
  "ascii_space c = ((9 \<le> c \<and> c \<le> 13) \<or> (28 \<le> c \<and> c \<le> 32))"

fun common_prefix :: "pystr \<Rightarrow> pystr \<Rightarrow> nat" where
  "common_prefix (x # xs) (y # ys) = (if x = y then Suc (common_prefix xs ys) else 0)"
| "common_prefix _ _ = 0"

definition find_longest_match :: "pystr \<Rightarrow> pystr \<Rightarrow> nat \<times> nat \<times> nat" where
  "find_longest_match a b =
     fold (\<lambda>(i, j) (besti, bestj, bestsize).
             let k = common_prefix (drop i a) (drop j b)
             in if bestsize < k then (i, j, k) else (besti, bestj, bestsize))
       (List.product [0..<length a] [0..<length b]) (0, 0, 0)"

lemma common_prefix_le:
  "common_prefix xs ys \<le> length xs \<and> common_prefix xs ys \<le> length ys"
  by (induction xs ys rule: common_prefix.induct) auto

lemma flm_fold_inv:
  assumes "bi + bk \<le> length a" "bj + bk \<le> length b"
  shows "case fold (\<lambda>(i, j) (besti, bestj, bestsize).
             let k = common_prefix (drop i a) (drop j b)
             in if bestsize < k then (i, j, k) else (besti, bestj, bestsize)) ps (bi, bj, bk)
         of (i, j, k) \<Rightarrow> i + k \<le> length a \<and> j + k \<le> length b"
  using assms
proof (induction ps arbitrary: bi bj bk)
  case Nil
  then show ?case by simp
next
  case (Cons p ps)
  obtain i j where p: "p = (i, j)" by (cases p)
  let ?k = "common_prefix (drop i a) (drop j b)"
  have "0 < ?k \<Longrightarrow> i + ?k \<le> length a \<and> j + ?k \<le> length b"
    using common_prefix_le[of "drop i a" "drop j b"] by auto
  then show ?case using Cons by (auto simp add: p Let_def)
qed

lemma flm_bounds:
  "find_longest_match a b = (i, j, k) \<Longrightarrow> i + k \<le> length a \<and> j + k \<le> length b"
  using flm_fold_inv[of 0 0 a 0 b "List.product [0..<length a] [0..<length b]"]
  by (simp add: find_longest_match_def)

function matching_total :: "pystr \<Rightarrow> pystr \<Rightarrow> nat" where
  "matching_total a b =
     (case find_longest_match a b of
        (i, j, k) \<Rightarrow>
          if k = 0 then 0
          else matching_total (take i a) (take j b) + k
               + matching_total (drop (i + k) a) (drop (j + k) b))"
  by pat_completeness auto
termination
  by (relation "measure (\<lambda>(a, b). length a)")
     (auto dest!: flm_bounds[OF sym])

declare matching_total.simps [simp del]

definition matcher_ratio :: "pystr \<Rightarrow> pystr \<Rightarrow> real" where
  "matcher_ratio a b =
     (if length a + length b = 0 then 1
      else 2 * real (matching_total a b) / real (length a + length b))"

definition ascii_lib :: pylib where
  "ascii_lib = \<lparr>str_lower = ascii_lower, nfd = (\<lambda>t. t), category_Mn = (\<lambda>c. False),
                re_word = ascii_word, re_space = ascii_space, seq_ratio = matcher_ratio\<rparr>"

section \<open>Verification\<close>

subsection \<open>Collecting, sorting and truncating\<close>

text \<open>The test both collecting loops apply to a worker result.\<close>

definition passes :: "real \<Rightarrow> sim_result \<Rightarrow> bool" where
  "passes threshold result = (error result = None \<and> threshold \<le> combined result)"

text \<open>The argument tuples whose results the \<open>as_completed\<close> loop gets to see, in order.\<close>

definition delivered :: "pair_args list \<Rightarrow> (nat \<times> future_outcome) list \<Rightarrow> pair_args list" where
  "delivered args_list evs =
     map (\<lambda>(i, out). args_list ! i)
       (filter (\<lambda>(i, out). i < length args_list \<and> out = Returned) evs)"

lemma collect_completed_eq:
  "collect_completed L threshold args_list evs similarities =
     similarities @ filter (passes threshold)
       (map (calculate_single_similarity L) (delivered args_list evs))"
  by (induction L threshold args_list evs similarities rule: collect_completed.induct)
     (simp_all add: delivered_def passes_def Let_def)

lemma collect_sequential_eq:
  "collect_sequential L threshold args_list similarities =
     similarities @ filter (passes threshold) (map (calculate_single_similarity L) args_list)"
  by (induction args_list arbitrary: similarities) (auto simp: passes_def Let_def)

lemma sort_by_combined_sorted:
  "sorted_wrt (\<lambda>a b. combined b \<le> combined a) (sort_by_combined xs)"
proof -
  have "sorted (map (\<lambda>x. - combined x) (sort_by_combined xs))"
    unfolding sort_by_combined_def by (rule sorted_sort_key)
  then show ?thesis by (simp add: sorted_map)
qed

lemma set_sort_by_combined: "set (sort_by_combined xs) = set xs"
  by (simp add: sort_by_combined_def)

lemma py_take_sorted:
  "sorted_wrt P xs \<Longrightarrow> sorted_wrt P (py_take k xs)"
  by (simp add: py_take_def sorted_wrt_take)

lemma set_py_take: "set (py_take k xs) \<subseteq> set xs"
  by (auto simp: py_take_def dest: in_set_takeD)

lemma length_py_take: "0 \<le> k \<Longrightarrow> int (length (py_take k xs)) \<le> k"
  by (simp add: py_take_def)

definition collected :: "pylib \<Rightarrow> real \<Rightarrow> pool_run \<Rightarrow> pair_args list \<Rightarrow> sim_result list" where
  "collected L threshold pool args_list =
     (case pool of
        PoolCompleted evs \<Rightarrow> collect_completed L threshold args_list evs []
      | PoolFailed \<Rightarrow> collect_sequential L threshold args_list [])"

lemma collected_passes: "r \<in> set (collected L threshold pool args_list) \<Longrightarrow> passes threshold r"
  by (cases pool) (auto simp: collected_def collect_completed_eq collect_sequential_eq)

definition prepare_args :: "service \<Rightarrow> ticket \<Rightarrow> ticket list \<Rightarrow> pair_args list" where
  "prepare_args self target_ticket candidate_tickets =
     map (\<lambda>ticket. (ticket_get ticket ''id'', ticket_get target_ticket ''content'',
                    ticket_get target_ticket ''title'', ticket_get ticket ''id'',
                    ticket_get ticket ''content'', ticket_get ticket ''title''))
       (if max_items self < int (length candidate_tickets)
        then py_take (max_items self) candidate_tickets else candidate_tickets)"

lemma find_similar_tickets_alt:
  "find_similar_tickets self L pool target cands threshold max_results =
     (if cands = [] then []
      else py_take max_results
             (sort_by_combined (collected L threshold pool (prepare_args self target cands))))"
  unfolding find_similar_tickets_def collected_def prepare_args_def Let_def by (rule refl)

lemma find_similar_tickets_sorted:
  "sorted_wrt (\<lambda>a b. combined b \<le> combined a)
     (find_similar_tickets self L pool target cands threshold max_results)"
proof (cases "cands = []")
  case True
  then show ?thesis by (simp add: find_similar_tickets_alt)
next
  case False
  then show ?thesis
    unfolding find_similar_tickets_alt
    using py_take_sorted[OF sort_by_combined_sorted] by simp
qed

lemma find_similar_tickets_passes:
  assumes "r \<in> set (find_similar_tickets self L pool target cands threshold max_results)"
  shows "passes threshold r"
proof (cases "cands = []")
  case True
  with assms show ?thesis by (simp add: find_similar_tickets_alt)
next
  case False
  with assms have
    "r \<in> set (py_take max_results
       (sort_by_combined (collected L threshold pool (prepare_args self target cands))))"
    by (simp add: find_similar_tickets_alt)
  then have "r \<in> set (sort_by_combined (collected L threshold pool (prepare_args self target cands)))"
    by (rule subsetD[OF set_py_take])
  then have "r \<in> set (collected L threshold pool (prepare_args self target cands))"
    by (simp only: set_sort_by_combined)
  then show ?thesis by (rule collected_passes)
qed

lemma find_similar_tickets_length:
  "0 \<le> max_results \<Longrightarrow>
   int (length (find_similar_tickets self L pool target cands threshold max_results)) \<le> max_results"
  by (simp add: find_similar_tickets_alt length_py_take)

text \<open>
  C1. Whatever the pool does, the list returned by \<open>find_similar_tickets\<close> is sorted by
  \<open>combined\<close> in descending order, every entry has \<open>combined \<ge> threshold\<close>, and its length is
  at most \<open>max_results\<close>, for every \<open>max_results\<close> of the contract (a count, so not negative).
\<close>

theorem find_similar_tickets_ranked:
  "sorted_wrt (\<lambda>a b. combined b \<le> combined a)
     (find_similar_tickets self L pool target cands threshold max_results)
   \<and> (\<forall>r \<in> set (find_similar_tickets self L pool target cands threshold max_results).
         threshold \<le> combined r)
   \<and> (0 \<le> max_results \<longrightarrow>
        int (length (find_similar_tickets self L pool target cands threshold max_results))
          \<le> max_results)"
proof (intro conjI ballI impI)
  show "sorted_wrt (\<lambda>a b. combined b \<le> combined a)
     (find_similar_tickets self L pool target cands threshold max_results)"
    by (rule find_similar_tickets_sorted)
next
  fix r
  assume "r \<in> set (find_similar_tickets self L pool target cands threshold max_results)"
  then have "passes threshold r" by (rule find_similar_tickets_passes)
  then show "threshold \<le> combined r" by (simp add: passes_def)
next
  assume "0 \<le> max_results"
  then show "int (length (find_similar_tickets self L pool target cands threshold max_results))
          \<le> max_results"
    by (rule find_similar_tickets_length)
qed


subsection \<open>The metrics on strings\<close>

text \<open>What \<open>normalize_text\<close> returns on a string.\<close>

definition norm_str :: "pylib \<Rightarrow> pystr \<Rightarrow> pystr" where
  "norm_str L s =
     (if s = [] then []
      else strip_ws L (collapse_ws L (sub_nonword L
             (filter (\<lambda>c. \<not> category_Mn L c) (nfd L (str_lower L s))))))"

lemma normalize_text_PyStr: "normalize_text L (PyStr s) = Inr (norm_str L s)"
  by (simp add: norm_str_def)

lemma normalize_text_falsy: "\<not> truthy v \<Longrightarrow> normalize_text L v = Inr []"
  by simp

lemma normalize_text_PyInt: "n \<noteq> 0 \<Longrightarrow> normalize_text L (PyInt n) = Inl AttributeError"
  by simp

lemma sequence_similarity_str:
  "\<exists>x. sequence_similarity L (PyStr a) (PyStr b) = Inr x"
  by (simp add: normalize_text_PyStr del: normalize_text.simps)

lemma cosine_similarity_str:
  "\<exists>x. cosine_similarity L (PyStr a) (PyStr b) = Inr x"
  by (simp add: normalize_text_PyStr Let_def del: normalize_text.simps)

lemma extract_keywords_str:
  "\<exists>x. extract_keywords L (PyStr a) n = Inr x"
  by (simp add: normalize_text_PyStr del: normalize_text.simps)

lemma levenshtein_similarity_str:
  "\<exists>x. levenshtein_similarity L (PyStr a) (PyStr b) = Inr x"
  by (simp add: normalize_text_PyStr Let_def del: normalize_text.simps)

lemma tfidf_similarity_str:
  "\<exists>x. tfidf_similarity L (PyStr a) (PyStr b) = Inr x"
  by (simp add: normalize_text_PyStr Let_def del: normalize_text.simps)

lemma combined_similarity_str:
  "\<exists>x. combined_similarity L (PyStr a) (PyStr b) (PyStr ta) (PyStr tb) = Inr x"
proof -
  obtain s where s: "sequence_similarity L (PyStr a) (PyStr b) = Inr s"
    using sequence_similarity_str by blast
  obtain c where c: "cosine_similarity L (PyStr a) (PyStr b) = Inr c"
    using cosine_similarity_str by blast
  obtain k1 where k1: "extract_keywords L (PyStr a) 3 = Inr k1"
    using extract_keywords_str by blast
  obtain k2 where k2: "extract_keywords L (PyStr b) 3 = Inr k2"
    using extract_keywords_str by blast
  obtain t where t: "sequence_similarity L (PyStr ta) (PyStr tb) = Inr t"
    using sequence_similarity_str by blast
  show ?thesis
    by (simp add: s c k1 k2 t
          del: sequence_similarity.simps cosine_similarity.simps extract_keywords.simps)
qed

lemma calculate_single_similarity_str:
  assumes "combined_similarity L (PyStr a) (PyStr b) (PyStr ta) (PyStr tb) = Inr x"
  shows "id1 (calculate_single_similarity L (i1, PyStr a, PyStr ta, i2, PyStr b, PyStr tb)) = i1
       \<and> id2 (calculate_single_similarity L (i1, PyStr a, PyStr ta, i2, PyStr b, PyStr tb)) = i2
       \<and> error (calculate_single_similarity L (i1, PyStr a, PyStr ta, i2, PyStr b, PyStr tb)) = None
       \<and> combined (calculate_single_similarity L (i1, PyStr a, PyStr ta, i2, PyStr b, PyStr tb)) = x"
proof -
  obtain s where s: "sequence_similarity L (PyStr a) (PyStr b) = Inr s"
    using sequence_similarity_str by blast
  obtain c where c: "cosine_similarity L (PyStr a) (PyStr b) = Inr c"
    using cosine_similarity_str by blast
  obtain k1 where k1: "extract_keywords L (PyStr a) 3 = Inr k1"
    using extract_keywords_str by blast
  obtain k2 where k2: "extract_keywords L (PyStr b) 3 = Inr k2"
    using extract_keywords_str by blast
  obtain l where l: "levenshtein_similarity L (PyStr a) (PyStr b) = Inr l"
    using levenshtein_similarity_str by blast
  obtain t where t: "tfidf_similarity L (PyStr a) (PyStr b) = Inr t"
    using tfidf_similarity_str by blast
  show ?thesis
    by (simp add: s c k1 k2 l t assms
          del: sequence_similarity.simps cosine_similarity.simps extract_keywords.simps
               levenshtein_similarity.simps tfidf_similarity.simps combined_similarity.simps)
qed


subsection \<open>A concrete batch\<close>

definition abc :: pystr where
  "abc = ascii ''abc''"

lemma abc_eq: "abc = [97, 98, 99]"
  by (simp add: abc_def ascii_def)

lemma ascii_space_abc: "\<not> ascii_space 97" "\<not> ascii_space 98" "\<not> ascii_space 99"
  by (simp_all add: ascii_space_def)

lemma ascii_word_abc: "ascii_word 97" "ascii_word 98" "ascii_word 99"
  by (simp_all add: ascii_word_def)

lemma norm_str_abc: "norm_str ascii_lib abc = abc"
  by (simp add: abc_eq norm_str_def ascii_lib_def ascii_lower_def sub_nonword_def strip_ws_def
        ascii_space_abc ascii_word_abc)

lemma split_ws_abc: "split_ws ascii_lib abc = [abc]"
  by (simp add: abc_eq ascii_lib_def ascii_space_abc)

lemma flm_abc: "find_longest_match [97, 98, 99] [97, 98, 99] = (0, 0, 3)"
  by code_simp

lemma flm_nil: "find_longest_match [] b = (0, 0, 0)"
  by (simp add: find_longest_match_def)

lemma matching_total_nil: "matching_total [] b = 0"
  by (subst matching_total.simps) (simp add: flm_nil)

lemma matching_total_abc: "matching_total abc abc = 3"
  unfolding abc_eq
  by (subst matching_total.simps) (simp add: flm_abc matching_total_nil)

lemma matcher_ratio_abc: "matcher_ratio abc abc = 1"
  by (simp add: matcher_ratio_def matching_total_abc) (simp add: abc_eq)

lemma abc_not_stop: "abc \<notin> set stop_words"
  unfolding abc_eq by code_simp

lemma sequence_similarity_abc:
  "sequence_similarity ascii_lib (PyStr abc) (PyStr abc) = Inr 1"
proof -
  have "seq_ratio ascii_lib abc abc = 1" by (simp add: ascii_lib_def matcher_ratio_abc)
  moreover have "abc \<noteq> []" by (simp add: abc_eq)
  ultimately show ?thesis
    by (simp add: normalize_text_PyStr norm_str_abc del: normalize_text.simps)
qed

lemma cosine_similarity_abc:
  "cosine_similarity ascii_lib (PyStr abc) (PyStr abc) = Inr 1"
proof -
  have "abc \<noteq> []" by (simp add: abc_eq)
  then show ?thesis
    by (simp add: normalize_text_PyStr norm_str_abc split_ws_abc Let_def
          del: normalize_text.simps)
qed

lemma extract_keywords_abc:
  "extract_keywords ascii_lib (PyStr abc) 3 = Inr {|abc|}"
proof -
  have "abc \<noteq> []" "length abc = 3" by (simp_all add: abc_eq)
  then show ?thesis
    by (simp add: normalize_text_PyStr norm_str_abc split_ws_abc abc_not_stop
          del: normalize_text.simps)
qed

lemma combined_similarity_abc:
  "combined_similarity ascii_lib (PyStr abc) (PyStr abc) (PyStr abc) (PyStr abc) = Inr 1"
proof -
  have "abc \<noteq> []" by (simp add: abc_eq)
  then show ?thesis
    by (simp add: sequence_similarity_abc cosine_similarity_abc extract_keywords_abc
          jaccard_similarity_def Let_def fcard_finsert_if
          del: sequence_similarity.simps cosine_similarity.simps extract_keywords.simps)
qed


definition example_service :: service where
  "example_service = \<lparr>max_workers = 2, max_items = 10\<rparr>"

definition ticket_abc :: "int \<Rightarrow> ticket" where
  "ticket_abc n = [''id'' \<mapsto> PyInt n, ''title'' \<mapsto> PyStr abc, ''content'' \<mapsto> PyStr abc]"

definition result_abc :: "int \<Rightarrow> int \<Rightarrow> sim_result" where
  "result_abc m n =
     calculate_single_similarity ascii_lib
       (PyInt m, PyStr abc, PyStr abc, PyInt n, PyStr abc, PyStr abc)"

lemma result_abc_fields:
  "id1 (result_abc m n) = PyInt m" "id2 (result_abc m n) = PyInt n"
  "error (result_abc m n) = None" "combined (result_abc m n) = 1"
  unfolding result_abc_def
  using calculate_single_similarity_str[OF combined_similarity_abc] by simp_all

lemma ticket_abc_get:
  "ticket_get (ticket_abc n) ''id'' = PyInt n"
  "ticket_get (ticket_abc n) ''title'' = PyStr abc"
  "ticket_get (ticket_abc n) ''content'' = PyStr abc"
  by (simp_all add: ticket_get_def ticket_abc_def)

lemma prepare_args_abc2:
  "prepare_args example_service (ticket_abc t) [ticket_abc m, ticket_abc n] =
     [(PyInt m, PyStr abc, PyStr abc, PyInt m, PyStr abc, PyStr abc),
      (PyInt n, PyStr abc, PyStr abc, PyInt n, PyStr abc, PyStr abc)]"
  by (simp add: prepare_args_def example_service_def ticket_abc_get)

lemma prepare_args_abc1:
  "prepare_args example_service (ticket_abc t) [ticket_abc m] =
     [(PyInt m, PyStr abc, PyStr abc, PyInt m, PyStr abc, PyStr abc)]"
  by (simp add: prepare_args_def example_service_def ticket_abc_get)

lemma passes_abc: "threshold \<le> 1 \<Longrightarrow> passes threshold (result_abc m n)"
  by (simp add: passes_def result_abc_fields)

lemma sort_abc2: "sort_by_combined [result_abc m m, result_abc n n] = [result_abc m m, result_abc n n]"
  by (simp add: sort_by_combined_def result_abc_fields)

lemma find_abc_failed:
  "threshold \<le> 1 \<Longrightarrow>
   find_similar_tickets example_service ascii_lib PoolFailed (ticket_abc t)
     [ticket_abc m, ticket_abc n] threshold k
   = py_take k [result_abc m m, result_abc n n]"
  by (simp add: find_similar_tickets_alt prepare_args_abc2 collected_def collect_sequential_eq
        passes_abc sort_abc2 result_abc_def[symmetric]
        del: calculate_single_similarity.simps)

lemma find_abc_completed:
  "threshold \<le> 1 \<Longrightarrow>
   find_similar_tickets example_service ascii_lib
     (PoolCompleted [(i, Returned), (j, Returned)]) (ticket_abc t)
     [ticket_abc m, ticket_abc n] threshold k
   = py_take k (sort_by_combined
       (filter (passes threshold) (map (calculate_single_similarity ascii_lib)
         (delivered [(PyInt m, PyStr abc, PyStr abc, PyInt m, PyStr abc, PyStr abc),
      (PyInt n, PyStr abc, PyStr abc, PyInt n, PyStr abc, PyStr abc)] [(i, Returned), (j, Returned)]))))"
  by (simp add: find_similar_tickets_alt prepare_args_abc2 collected_def collect_completed_eq
        del: calculate_single_similarity.simps)

lemma find_abc_in_order:
  "threshold \<le> 1 \<Longrightarrow>
   find_similar_tickets example_service ascii_lib
     (PoolCompleted [(0, Returned), (1, Returned)]) (ticket_abc t)
     [ticket_abc m, ticket_abc n] threshold k
   = py_take k [result_abc m m, result_abc n n]"
  by (simp add: find_abc_completed delivered_def passes_abc sort_abc2 result_abc_def[symmetric]
        del: calculate_single_similarity.simps)

lemma find_abc_reversed:
  "threshold \<le> 1 \<Longrightarrow>
   find_similar_tickets example_service ascii_lib
     (PoolCompleted [(1, Returned), (0, Returned)]) (ticket_abc t)
     [ticket_abc m, ticket_abc n] threshold k
   = py_take k [result_abc n n, result_abc m m]"
  by (simp add: find_abc_completed delivered_def passes_abc sort_abc2 result_abc_def[symmetric]
        del: calculate_single_similarity.simps)

text \<open>
  C7, the failing input. Two candidates score the same, \<open>max_results = 1\<close>, and the two calls
  see the workers complete in different orders: the call with threshold 0.9 returns
  candidate 2 only, the call with threshold 0.1 returns candidate 3 only, so the ids
  returned with 0.9 are not among the ids returned with 0.1.
\<close>

theorem threshold_subset_fails_across_completion_orders:
  "find_similar_tickets example_service ascii_lib
       (PoolCompleted [(0, Returned), (1, Returned)]) (ticket_abc 1)
       [ticket_abc 2, ticket_abc 3] (9 / 10) 1 = [result_abc 2 2]
   \<and> find_similar_tickets example_service ascii_lib
       (PoolCompleted [(1, Returned), (0, Returned)]) (ticket_abc 1)
       [ticket_abc 2, ticket_abc 3] (1 / 10) 1 = [result_abc 3 3]
   \<and> id2 (result_abc 2 2) = PyInt 2 \<and> id2 (result_abc 3 3) = PyInt 3
   \<and> \<not> id2 ` set (find_similar_tickets example_service ascii_lib
            (PoolCompleted [(0, Returned), (1, Returned)]) (ticket_abc 1)
            [ticket_abc 2, ticket_abc 3] (9 / 10) 1)
     \<subseteq> id2 ` set (find_similar_tickets example_service ascii_lib
            (PoolCompleted [(1, Returned), (0, Returned)]) (ticket_abc 1)
            [ticket_abc 2, ticket_abc 3] (1 / 10) 1)"
proof -
  have a: "find_similar_tickets example_service ascii_lib
            (PoolCompleted [(0, Returned), (1, Returned)]) (ticket_abc 1)
            [ticket_abc 2, ticket_abc 3] (9 / 10) 1 = [result_abc 2 2]"
    using find_abc_in_order[of "9 / 10" 1 2 3 1] by (simp add: py_take_def)
  have b: "find_similar_tickets example_service ascii_lib
            (PoolCompleted [(1, Returned), (0, Returned)]) (ticket_abc 1)
            [ticket_abc 2, ticket_abc 3] (1 / 10) 1 = [result_abc 3 3]"
    using find_abc_reversed[of "1 / 10" 1 2 3 1] by (simp add: py_take_def)
  show ?thesis unfolding a b by (simp add: result_abc_fields)
qed

text \<open>C1, witness: the concrete batch, ranked with \<open>max_results = 1\<close>.\<close>

theorem find_similar_tickets_ranked_witness:
  "find_similar_tickets example_service ascii_lib PoolFailed (ticket_abc 1)
     [ticket_abc 2, ticket_abc 3] (3 / 10) 1 = [result_abc 2 2]
   \<and> 3 / 10 \<le> combined (result_abc 2 2)
   \<and> int (length [result_abc 2 2]) \<le> 1"
proof -
  have e: "find_similar_tickets example_service ascii_lib PoolFailed (ticket_abc 1)
     [ticket_abc 2, ticket_abc 3] (3 / 10) 1 = [result_abc 2 2]"
    using find_abc_failed[of "3 / 10" 1 2 3 1] by (simp add: py_take_def)
  show ?thesis
    using find_similar_tickets_ranked[of example_service ascii_lib PoolFailed "ticket_abc 1"
        "[ticket_abc 2, ticket_abc 3]" "3 / 10" 1]
    unfolding e by simp
qed

subsection \<open>jaccard_similarity\<close>

text \<open>
  C9 (as amended). Two empty sets score 1; a non-empty set against the empty set scores 0;
  \<open>{a, b}\<close> against \<open>{b, c}\<close> scores 1/3; and two non-empty sets score the size of the
  intersection over the size of the union.
\<close>

theorem jaccard_similarity_cases:
  "jaccard_similarity {||} {||} = 1
   \<and> (A \<noteq> {||} \<longrightarrow> jaccard_similarity A {||} = 0 \<and> jaccard_similarity {||} A = 0)
   \<and> jaccard_similarity {|ascii ''a'', ascii ''b''|} {|ascii ''b'', ascii ''c''|} = 1 / 3
   \<and> (A \<noteq> {||} \<and> B \<noteq> {||} \<longrightarrow>
        jaccard_similarity A B = real (fcard (A |\<inter>| B)) / real (fcard (A |\<union>| B)))"
  by (simp add: jaccard_similarity_def Let_def ascii_def fcard_finsert_if)

text \<open>C9, witness: \<open>{a}\<close> against the empty set and against \<open>{a, b}\<close>.\<close>

theorem jaccard_similarity_cases_witness:
  "jaccard_similarity {|ascii ''a''|} {||} = 0
   \<and> jaccard_similarity {||} {|ascii ''a''|} = 0
   \<and> jaccard_similarity {|ascii ''a''|} {|ascii ''a'', ascii ''b''|}
       = real (fcard ({|ascii ''a''|} |\<inter>| {|ascii ''a'', ascii ''b''|}))
         / real (fcard ({|ascii ''a''|} |\<union>| {|ascii ''a'', ascii ''b''|}))"
  using jaccard_similarity_cases[of "{|ascii ''a''|}" "{|ascii ''a'', ascii ''b''|}"]
  by simp

text \<open>C9, counterexample: \<open>{a, b}\<close> and \<open>{b, c}\<close> share one of three words, so the score is
  not 0.5.\<close>

theorem jaccard_similarity_ab_bc_not_half:
  "jaccard_similarity {|ascii ''a'', ascii ''b''|} {|ascii ''b'', ascii ''c''|} \<noteq> 1 / 2"
  by (simp add: jaccard_similarity_def Let_def ascii_def fcard_finsert_if fcard_fempty)

subsection \<open>The identifiers in the results\<close>











subsection \<open>Raising the threshold\<close>

lemma filter_ge_takeWhile:
  "sorted_wrt (\<lambda>a b. f b \<le> f a) xs \<Longrightarrow>
   filter (\<lambda>x. (t::real) \<le> f x) xs = takeWhile (\<lambda>x. t \<le> f x) xs"
proof (induction xs)
  case Nil
  then show ?case by simp
next
  case (Cons x xs)
  show ?case
  proof (cases "t \<le> f x")
    case True
    with Cons show ?thesis by simp
  next
    case False
    have "\<forall>y \<in> set xs. \<not> t \<le> f y"
    proof
      fix y assume "y \<in> set xs"
      with Cons.prems have "f y \<le> f x" by simp
      with False show "\<not> t \<le> f y" by linarith
    qed
    then have "filter (\<lambda>x. t \<le> f x) xs = []" by (simp add: filter_empty_conv)
    with False show ?thesis by simp
  qed
qed

lemma filter_sort_by_combined:
  "filter P (sort_by_combined xs) = sort_by_combined (filter P xs)"
  by (simp add: sort_by_combined_def filter_sort)

lemma py_take_take_subset:
  "n \<le> length xs \<Longrightarrow> set (py_take k (take n xs)) \<subseteq> set (py_take k xs)"
proof -
  assume n: "n \<le> length xs"
  show ?thesis
  proof (cases "0 \<le> k")
    case True
    have "take (nat k) (take n xs) = take (min (nat k) n) xs" by (simp add: min.commute)
    moreover have "set (take (min (nat k) n) xs) \<subseteq> set (take (nat k) xs)"
      by (rule set_take_subset_set_take) simp
    ultimately show ?thesis using True by (simp add: py_take_def)
  next
    case False
    have "take (length (take n xs) - nat (- k)) (take n xs) = take (n - nat (- k)) xs"
      using n by (simp add: min_def)
    moreover have "set (take (n - nat (- k)) xs) \<subseteq> set (take (length xs - nat (- k)) xs)"
      by (rule set_take_subset_set_take) (use n in simp)
    ultimately show ?thesis using False by (simp add: py_take_def)
  qed
qed

lemma ranked_threshold_mono:
  assumes "t1 \<le> t2"
  shows "set (py_take k (sort_by_combined (filter (passes t2) xs)))
       \<subseteq> set (py_take k (sort_by_combined (filter (passes t1) xs)))"
proof -
  let ?S = "sort_by_combined (filter (passes t1) xs)"
  have "filter (passes t2) xs = filter (\<lambda>x. t2 \<le> combined x) (filter (passes t1) xs)"
    using assms by (auto simp: passes_def intro: filter_cong)
  then have "sort_by_combined (filter (passes t2) xs) = filter (\<lambda>x. t2 \<le> combined x) ?S"
    by (simp only: filter_sort_by_combined)
  also have "\<dots> = takeWhile (\<lambda>x. t2 \<le> combined x) ?S"
    by (rule filter_ge_takeWhile) (rule sort_by_combined_sorted)
  also have "\<dots> = take (length (takeWhile (\<lambda>x. t2 \<le> combined x) ?S)) ?S"
    by (rule takeWhile_eq_take)
  finally have e: "sort_by_combined (filter (passes t2) xs)
      = take (length (takeWhile (\<lambda>x. t2 \<le> combined x) ?S)) ?S" .
  show ?thesis
    unfolding e by (rule py_take_take_subset) (rule length_takeWhile_le)
qed

text \<open>The argument tuples whose results a run collects, in the order it collects them.\<close>

definition consumed :: "pool_run \<Rightarrow> pair_args list \<Rightarrow> pair_args list" where
  "consumed pool args_list =
     (case pool of PoolCompleted evs \<Rightarrow> delivered args_list evs | PoolFailed \<Rightarrow> args_list)"

lemma collected_eq:
  "collected L threshold pool args_list =
     filter (passes threshold) (map (calculate_single_similarity L) (consumed pool args_list))"
  by (cases pool) (simp_all add: collected_def consumed_def collect_completed_eq collect_sequential_eq)

text \<open>
  On one and the same pool behaviour, in particular on the sequential path, which keeps
  the input order, raising the threshold never adds an id: the ids returned with the higher
  threshold are among the ids returned with the lower one.
\<close>

theorem find_similar_tickets_threshold_mono:
  assumes "t1 \<le> t2"
  shows "id2 ` set (find_similar_tickets self L pool target cands t2 max_results)
       \<subseteq> id2 ` set (find_similar_tickets self L pool target cands t1 max_results)"
proof (cases "cands = []")
  case True
  then show ?thesis by (simp add: find_similar_tickets_alt)
next
  case False
  have "set (find_similar_tickets self L pool target cands t2 max_results)
       \<subseteq> set (find_similar_tickets self L pool target cands t1 max_results)"
    using False ranked_threshold_mono[OF assms]
    by (simp add: find_similar_tickets_alt collected_eq)
  then show ?thesis by (rule image_mono)
qed


text \<open>An instance: the thresholds 0.1 and 0.9 on the sequential path.\<close>

theorem find_similar_tickets_threshold_mono_witness:
  "id2 ` set (find_similar_tickets example_service ascii_lib PoolFailed (ticket_abc 1)
                [ticket_abc 2, ticket_abc 3] (9 / 10) 1)
     \<subseteq> id2 ` set (find_similar_tickets example_service ascii_lib PoolFailed (ticket_abc 1)
                [ticket_abc 2, ticket_abc 3] (1 / 10) 1)"
  using find_similar_tickets_threshold_mono[of "1 / 10" "9 / 10" example_service ascii_lib
      PoolFailed "ticket_abc 1" "[ticket_abc 2, ticket_abc 3]" 1]
  by simp

subsection \<open>cosine_similarity of a text with itself\<close>

lemma sum_list_squares_pos:
  assumes "x \<in> set xs" "0 < f x"
  shows "0 < sum_list (map (\<lambda>a. a * a) (map f xs :: nat list))"
  using assms by (induction xs) auto

lemma cosine_same_words:
  assumes "words \<noteq> []"
  shows "(let vocab = remdups (words @ words);
              vec1 = map (count_list words) vocab;
              vec2 = map (count_list words) vocab;
              dot_product = sum_list (map (\<lambda>(a, b). a * b) (zip vec1 vec2));
              norm1 = sqrt (real (sum_list (map (\<lambda>a. a * a) vec1)));
              norm2 = sqrt (real (sum_list (map (\<lambda>b. b * b) vec2)))
          in if norm1 = 0 \<or> norm2 = 0 then Inr 0
             else Inr (real dot_product / (norm1 * norm2))) = (Inr 1 :: exn + real)"
proof -
  let ?vocab = "remdups (words @ words)"
  let ?vec = "map (count_list words) ?vocab"
  let ?s = "sum_list (map (\<lambda>a. a * a) ?vec)"
  obtain w where w: "w \<in> set words" using assms by (cases words) auto
  then have "w \<in> set ?vocab" by simp
  moreover have "0 < count_list words w"
    using w count_list_0_iff[of words w] by (cases "count_list words w") auto
  ultimately have pos: "0 < ?s" by (rule sum_list_squares_pos)
  have dot: "sum_list (map (\<lambda>(a, b). a * b) (zip ?vec ?vec)) = ?s"
    by (simp add: zip_same_conv_map comp_def)
  have sq: "0 < (x::nat) \<Longrightarrow> \<not> (sqrt (real x) = 0 \<or> sqrt (real x) = 0)
      \<and> real x / (sqrt (real x) * sqrt (real x)) = 1" for x
    by simp
  from sq[OF pos] have nz: "\<not> (sqrt (real ?s) = 0 \<or> sqrt (real ?s) = 0)"
    and one: "real ?s / (sqrt (real ?s) * sqrt (real ?s)) = 1" by blast+
  show ?thesis unfolding Let_def dot by (simp only: nz if_False one)
qed

text \<open>
  C6 (as amended). For every text whose normalised form contains at least one word,
  \<open>cosine_similarity\<close> of the text with itself is 1 (in exact arithmetic, hence within any
  tolerance).
\<close>

theorem cosine_similarity_self:
  assumes "normalize_text L (PyStr t) = Inr n" and "split_ws L n \<noteq> []"
  shows "cosine_similarity L (PyStr t) (PyStr t) = Inr 1"
proof -
  have "t \<noteq> []" using assms by auto
  then show ?thesis
    using assms cosine_same_words[OF assms(2)]
    by (simp del: normalize_text.simps)
qed

text \<open>C6, witness: the text \<open>abc\<close>.\<close>

theorem cosine_similarity_self_witness:
  "cosine_similarity ascii_lib (PyStr abc) (PyStr abc) = Inr 1"
proof -
  have "normalize_text ascii_lib (PyStr abc) = Inr abc"
    by (simp add: normalize_text_PyStr norm_str_abc del: normalize_text.simps)
  moreover have "split_ws ascii_lib abc \<noteq> []" by (simp add: split_ws_abc)
  ultimately show ?thesis by (rule cosine_similarity_self)
qed

text \<open>
  C6, counterexample. The text \<open>!\<close> is not empty, its normalised form has no word, and the
  guard on empty word lists returns 0.
\<close>

theorem cosine_similarity_self_punctuation:
  "cosine_similarity ascii_lib (PyStr (ascii ''!'')) (PyStr (ascii ''!'')) = Inr 0"
  by (simp add: ascii_def ascii_lib_def ascii_lower_def sub_nonword_def strip_ws_def
        ascii_word_def ascii_space_def)

subsection \<open>combined_similarity\<close>

lemma jaccard_similarity_nonneg: "0 \<le> jaccard_similarity A B"
  by (simp add: jaccard_similarity_def Let_def)

lemma sequence_similarity_nonneg:
  assumes "\<forall>a b. 0 \<le> seq_ratio L a b" and "sequence_similarity L t1 t2 = Inr x"
  shows "0 \<le> x"
  using assms by (auto split: if_splits sum.splits simp del: normalize_text.simps)

lemma cosine_similarity_nonneg:
  assumes "cosine_similarity L t1 t2 = Inr x"
  shows "0 \<le> x"
  using assms
  by (auto split: if_splits sum.splits simp: Let_def simp del: normalize_text.simps)

lemma combined_similarity_falsy:
  "\<not> truthy text1 \<or> \<not> truthy text2 \<Longrightarrow>
   combined_similarity L text1 text2 title1 title2 = Inr 0"
  by simp

lemma combined_similarity_formula:
  assumes "t1 \<noteq> []" "t2 \<noteq> []"
  shows "combined_similarity L (PyStr t1) (PyStr t2) (PyStr ti1) (PyStr ti2) =
     Inr (min 1
       (30 / 100 * projr (sequence_similarity L (PyStr t1) (PyStr t2))
        + 30 / 100 * projr (cosine_similarity L (PyStr t1) (PyStr t2))
        + 25 / 100 * jaccard_similarity (projr (extract_keywords L (PyStr t1) 3))
                       (projr (extract_keywords L (PyStr t2) 3))
        + 15 / 100 * (if ti1 \<noteq> [] \<and> ti2 \<noteq> []
                      then projr (sequence_similarity L (PyStr ti1) (PyStr ti2)) else 0)))"
proof -
  obtain s where s: "sequence_similarity L (PyStr t1) (PyStr t2) = Inr s"
    using sequence_similarity_str by blast
  obtain c where c: "cosine_similarity L (PyStr t1) (PyStr t2) = Inr c"
    using cosine_similarity_str by blast
  obtain k1 where k1: "extract_keywords L (PyStr t1) 3 = Inr k1"
    using extract_keywords_str by blast
  obtain k2 where k2: "extract_keywords L (PyStr t2) 3 = Inr k2"
    using extract_keywords_str by blast
  obtain t where t: "sequence_similarity L (PyStr ti1) (PyStr ti2) = Inr t"
    using sequence_similarity_str by blast
  show ?thesis
    using assms
    by (simp add: s c k1 k2 t
          del: sequence_similarity.simps cosine_similarity.simps extract_keywords.simps)
qed

lemma combined_similarity_bounds:
  assumes r: "\<forall>a b. 0 \<le> seq_ratio L a b"
    and c: "combined_similarity L text1 text2 title1 title2 = Inr x"
  shows "0 \<le> x \<and> x \<le> 1"
proof (cases "\<not> truthy text1 \<or> \<not> truthy text2")
  case True
  with c show ?thesis by simp
next
  case False
  from c False obtain s cs k1 k2 ts where
    s: "sequence_similarity L text1 text2 = Inr s"
    and cs: "cosine_similarity L text1 text2 = Inr cs"
    and ts: "(if truthy title1 \<and> truthy title2 then sequence_similarity L title1 title2
              else Inr 0) = Inr ts"
    and x: "x = min 1 (30 / 100 * s + 30 / 100 * cs + 25 / 100 * jaccard_similarity k1 k2
                       + 15 / 100 * ts)"
    by (auto split: sum.splits
          simp del: sequence_similarity.simps cosine_similarity.simps extract_keywords.simps)
  have "0 \<le> s" using sequence_similarity_nonneg[OF r s] .
  moreover have "0 \<le> cs" using cosine_similarity_nonneg[OF cs] .
  moreover have "0 \<le> ts"
    using ts sequence_similarity_nonneg[OF r, of title1 title2 ts]
    by (cases "truthy title1 \<and> truthy title2") simp_all
  moreover have "0 \<le> jaccard_similarity k1 k2" by (rule jaccard_similarity_nonneg)
  ultimately show ?thesis unfolding x by simp
qed

text \<open>
  C2. If either text is empty (or \<open>None\<close>) the result is 0 whatever the titles are, malformed
  ones included, so the titles are not consulted. On two non-empty texts the result is
  \<open>min 1 (0.30 * seq + 0.30 * cos + 0.25 * jac + 0.15 * titleSim)\<close>, where \<open>titleSim\<close> is the
  sequence similarity of the titles when both are non-empty and 0 otherwise. Every result
  lies in \<open>[0, 1]\<close>, given that \<open>SequenceMatcher.ratio\<close> is never negative.
\<close>

theorem combined_similarity_spec:
  "(\<not> truthy text1 \<or> \<not> truthy text2 \<longrightarrow>
      combined_similarity L text1 text2 title1 title2 = Inr 0)
   \<and> (t1 \<noteq> [] \<and> t2 \<noteq> [] \<longrightarrow>
      combined_similarity L (PyStr t1) (PyStr t2) (PyStr ti1) (PyStr ti2) =
        Inr (min 1
          (30 / 100 * projr (sequence_similarity L (PyStr t1) (PyStr t2))
           + 30 / 100 * projr (cosine_similarity L (PyStr t1) (PyStr t2))
           + 25 / 100 * jaccard_similarity (projr (extract_keywords L (PyStr t1) 3))
                          (projr (extract_keywords L (PyStr t2) 3))
           + 15 / 100 * (if ti1 \<noteq> [] \<and> ti2 \<noteq> []
                         then projr (sequence_similarity L (PyStr ti1) (PyStr ti2)) else 0))))
   \<and> ((\<forall>a b. 0 \<le> seq_ratio L a b) \<and> combined_similarity L text1 text2 title1 title2 = Inr x
        \<longrightarrow> 0 \<le> x \<and> x \<le> 1)"
  using combined_similarity_falsy[of text1 text2 L title1 title2]
    combined_similarity_formula[of t1 t2 L ti1 ti2]
    combined_similarity_bounds[of L text1 text2 title1 title2 x]
  by blast


lemma matcher_ratio_nonneg: "0 \<le> matcher_ratio a b"
  by (simp add: matcher_ratio_def)

text \<open>C2, witness: an empty text with malformed titles, and the text \<open>abc\<close> with title \<open>abc\<close>.\<close>

theorem combined_similarity_spec_witness:
  "combined_similarity ascii_lib (PyStr []) (PyStr abc) PyNone (PyInt 3) = Inr 0
   \<and> combined_similarity ascii_lib (PyStr abc) (PyStr abc) (PyStr abc) (PyStr abc) = Inr 1
   \<and> (\<forall>a b. 0 \<le> seq_ratio ascii_lib a b)
   \<and> (0::real) \<le> 1"
proof -
  have h: "\<forall>a b. 0 \<le> seq_ratio ascii_lib a b"
    by (simp add: ascii_lib_def matcher_ratio_nonneg)
  have n: "abc \<noteq> []" by (simp add: abc_eq)
  have f: "\<not> truthy (PyStr [])" by simp
  show ?thesis
    using combined_similarity_spec[where L = ascii_lib and ?text1.0 = "PyStr []"
        and ?text2.0 = "PyStr abc" and ?title1.0 = PyNone and ?title2.0 = "PyInt 3"
        and ?t1.0 = abc and ?t2.0 = abc and ?ti1.0 = abc and ?ti2.0 = abc and x = 0]
      h n f combined_similarity_abc
    by (simp del: combined_similarity.simps)
qed

subsection \<open>A candidate whose computation raises\<close>

text \<open>The list without its element at position \<open>i\<close>, and a pool run without the task at
  position \<open>i\<close> (the later tasks move up by one).\<close>

definition drop_nth :: "nat \<Rightarrow> 'a list \<Rightarrow> 'a list" where
  "drop_nth i xs = take i xs @ drop (Suc i) xs"

definition drop_task :: "nat \<Rightarrow> pool_run \<Rightarrow> pool_run" where
  "drop_task i pool =
     (case pool of
        PoolFailed \<Rightarrow> PoolFailed
      | PoolCompleted evs \<Rightarrow>
          PoolCompleted (map (\<lambda>(j, out). (if i < j then j - 1 else j, out))
                           (filter (\<lambda>(j, out). j \<noteq> i) evs)))"

lemma length_drop_nth: "i < length xs \<Longrightarrow> length (drop_nth i xs) = length xs - 1"
  by (simp add: drop_nth_def)

lemma nth_drop_nth:
  "i < length xs \<Longrightarrow> j < length xs \<Longrightarrow> j \<noteq> i \<Longrightarrow>
   drop_nth i xs ! (if i < j then j - 1 else j) = xs ! j"
  by (auto simp: drop_nth_def nth_append)

lemma map_drop_nth: "map f (drop_nth i xs) = drop_nth i (map f xs)"
  by (simp add: drop_nth_def take_map drop_map)

lemma delivered_drop_nth:
  assumes i: "i < length args_list"
    and bad: "\<not> passes threshold (calculate_single_similarity L (args_list ! i))"
  shows "filter (passes threshold) (map (calculate_single_similarity L)
           (delivered args_list evs))
       = filter (passes threshold) (map (calculate_single_similarity L)
           (delivered (drop_nth i args_list)
              (map (\<lambda>(j, out). (if i < j then j - 1 else j, out))
                 (filter (\<lambda>(j, out). j \<noteq> i) evs))))"
proof (induction evs)
  case Nil
  then show ?case by (simp add: delivered_def)
next
  case (Cons ev evs)
  obtain j out where ev: "ev = (j, out)" by (cases ev)
  let ?c = "calculate_single_similarity L"
  have step: "delivered xs ((k, o') # es) =
      (if k < length xs \<and> o' = Returned then [xs ! k] else []) @ delivered xs es"
    for xs es k o'
    by (simp add: delivered_def)
  show ?case
  proof (cases "j = i")
    case True
    then show ?thesis using Cons bad by (simp add: ev step del: calculate_single_similarity.simps)
  next
    case False
    let ?j' = "if i < j then j - 1 else j"
    have len: "(?j' < length (drop_nth i args_list)) = (j < length args_list)"
      using i False by (auto simp: length_drop_nth)
    have nth: "j < length args_list \<Longrightarrow> drop_nth i args_list ! ?j' = args_list ! j"
      using nth_drop_nth[OF i _ False] by simp
    have "delivered (drop_nth i args_list)
            (map (\<lambda>(j, out). (if i < j then j - 1 else j, out))
               (filter (\<lambda>(j, out). j \<noteq> i) ((j, out) # evs)))
        = (if j < length args_list \<and> out = Returned then [args_list ! j] else [])
          @ delivered (drop_nth i args_list)
              (map (\<lambda>(j, out). (if i < j then j - 1 else j, out))
                 (filter (\<lambda>(j, out). j \<noteq> i) evs))"
      using False len nth by (simp add: step)
    then show ?thesis using Cons by (simp add: ev step del: calculate_single_similarity.simps)
  qed
qed

lemma sequential_drop_nth:
  assumes i: "i < length args_list"
    and bad: "\<not> passes threshold (calculate_single_similarity L (args_list ! i))"
  shows "filter (passes threshold) (map (calculate_single_similarity L) args_list)
       = filter (passes threshold) (map (calculate_single_similarity L) (drop_nth i args_list))"
proof -
  have "args_list = take i args_list @ args_list ! i # drop (Suc i) args_list"
    using i by (rule id_take_nth_drop)
  then have "filter (passes threshold) (map (calculate_single_similarity L) args_list)
      = filter (passes threshold) (map (calculate_single_similarity L)
          (take i args_list @ args_list ! i # drop (Suc i) args_list))"
    by simp
  also have "\<dots> = filter (passes threshold) (map (calculate_single_similarity L)
          (drop_nth i args_list))"
    using bad by (simp add: drop_nth_def del: calculate_single_similarity.simps)
  finally show ?thesis .
qed

lemma collected_drop_task:
  assumes i: "i < length args_list"
    and bad: "\<not> passes threshold (calculate_single_similarity L (args_list ! i))"
  shows "collected L threshold pool args_list
       = collected L threshold (drop_task i pool) (drop_nth i args_list)"
proof (cases pool)
  case PoolFailed
  then show ?thesis
    using sequential_drop_nth[OF i bad]
    by (simp add: collected_eq consumed_def drop_task_def)
next
  case (PoolCompleted evs)
  then show ?thesis
    using delivered_drop_nth[OF i bad, of evs]
    by (simp add: collected_eq consumed_def drop_task_def)
qed

lemma prepare_args_uncapped:
  "int (length cands) \<le> max_items self \<Longrightarrow>
   prepare_args self target cands =
     map (\<lambda>ticket. (ticket_get ticket ''id'', ticket_get target ''content'',
                    ticket_get target ''title'', ticket_get ticket ''id'',
                    ticket_get ticket ''content'', ticket_get ticket ''title'')) cands"
  by (simp add: prepare_args_def)

lemma error_result_not_passes:
  "calculate_scores L a = Inl e \<Longrightarrow> \<not> passes threshold (calculate_single_similarity L a)"
  by (cases a) (simp add: passes_def del: calculate_scores.simps)


lemma find_similar_tickets_no_error:
  "r \<in> set (find_similar_tickets self L pool target cands threshold max_results) \<Longrightarrow>
   error r = None"
  using find_similar_tickets_passes[of r self L pool target cands threshold max_results]
  by (simp add: passes_def)

text \<open>The candidate list after the \<open>max_items\<close> truncation.\<close>

definition capped :: "service \<Rightarrow> 'a list \<Rightarrow> 'a list" where
  "capped self xs =
     (if max_items self < int (length xs) then py_take (max_items self) xs else xs)"

lemma length_capped: "length (capped self xs) \<le> length xs"
  by (auto simp: capped_def py_take_def)

lemma prepare_args_capped:
  "prepare_args self target cands =
     map (\<lambda>ticket. (ticket_get ticket ''id'', ticket_get target ''content'',
                    ticket_get target ''title'', ticket_get ticket ''id'',
                    ticket_get ticket ''content'', ticket_get ticket ''title''))
       (capped self cands)"
  by (simp add: prepare_args_def capped_def)

text \<open>
  C3 (as amended). When the computation for a candidate of the (truncated) batch raises,
  the worker returns for it a result with \<open>error\<close> set and \<open>combined = 0\<close>.
  \<open>find_similar_tickets\<close> drops that result: no returned entry carries an error. The
  remaining candidates are processed as if the failing one had not been submitted: the
  returned list is the one for the truncated batch without it (computed without a further
  truncation, on the pool run without that task).
\<close>

theorem find_similar_tickets_isolates_failure:
  assumes i: "i < length (capped self cands)"
    and raises: "calculate_scores L
        (ticket_get (capped self cands ! i) ''id'', ticket_get target ''content'',
         ticket_get target ''title'', ticket_get (capped self cands ! i) ''id'',
         ticket_get (capped self cands ! i) ''content'',
         ticket_get (capped self cands ! i) ''title'') = Inl e"
  shows "calculate_single_similarity L
        (ticket_get (capped self cands ! i) ''id'', ticket_get target ''content'',
         ticket_get target ''title'', ticket_get (capped self cands ! i) ''id'',
         ticket_get (capped self cands ! i) ''content'',
         ticket_get (capped self cands ! i) ''title'')
      = \<lparr>id1 = ticket_get (capped self cands ! i) ''id'',
         id2 = ticket_get (capped self cands ! i) ''id'',
         sequence = None, cosine = None, jaccard = None, levenshtein = None, tfidf = None,
         error = Some e, combined = 0\<rparr>
    \<and> (\<forall>r \<in> set (find_similar_tickets self L pool target cands threshold max_results).
          error r = None)
    \<and> find_similar_tickets self L pool target cands threshold max_results
      = find_similar_tickets (self\<lparr>max_items := int (length cands)\<rparr>) L (drop_task i pool)
          target (drop_nth i (capped self cands)) threshold max_results"
proof (intro conjI ballI)
  show "calculate_single_similarity L
        (ticket_get (capped self cands ! i) ''id'', ticket_get target ''content'',
         ticket_get target ''title'', ticket_get (capped self cands ! i) ''id'',
         ticket_get (capped self cands ! i) ''content'',
         ticket_get (capped self cands ! i) ''title'')
      = \<lparr>id1 = ticket_get (capped self cands ! i) ''id'',
         id2 = ticket_get (capped self cands ! i) ''id'',
         sequence = None, cosine = None, jaccard = None, levenshtein = None, tfidf = None,
         error = Some e, combined = 0\<rparr>"
    using raises by (simp del: calculate_scores.simps)
next
  fix r
  assume "r \<in> set (find_similar_tickets self L pool target cands threshold max_results)"
  then show "error r = None" by (rule find_similar_tickets_no_error)
next
  let ?self' = "self\<lparr>max_items := int (length cands)\<rparr>"
  let ?rest = "drop_nth i (capped self cands)"
  let ?args = "prepare_args self target cands"
  have len: "i < length ?args" using i by (simp add: prepare_args_capped)
  have nth: "?args ! i = (ticket_get (capped self cands ! i) ''id'', ticket_get target ''content'',
         ticket_get target ''title'', ticket_get (capped self cands ! i) ''id'',
         ticket_get (capped self cands ! i) ''content'',
         ticket_get (capped self cands ! i) ''title'')"
    using i by (simp add: prepare_args_capped)
  have bad: "\<not> passes threshold (calculate_single_similarity L (?args ! i))"
    unfolding nth using raises by (rule error_result_not_passes)
  have "length ?rest \<le> length cands"
    using i length_capped[of self cands] by (simp add: length_drop_nth)
  then have cap': "int (length ?rest) \<le> max_items ?self'" by simp
  have args': "prepare_args ?self' target ?rest = drop_nth i ?args"
    using prepare_args_uncapped[OF cap', of target]
    by (simp add: prepare_args_capped map_drop_nth)
  have c: "collected L threshold pool ?args
      = collected L threshold (drop_task i pool) (prepare_args ?self' target ?rest)"
    unfolding args' using len bad by (rule collected_drop_task)
  have ne: "cands \<noteq> []" using i length_capped[of self cands] by auto
  show "find_similar_tickets self L pool target cands threshold max_results
      = find_similar_tickets ?self' L (drop_task i pool) target ?rest threshold max_results"
  proof (cases "?rest = []")
    case False
    with ne show ?thesis by (simp add: find_similar_tickets_alt c)
  next
    case True
    then have "prepare_args ?self' target ?rest = []"
      by (simp add: prepare_args_def py_take_def)
    then have "collected L threshold pool ?args = []"
      unfolding c by (simp add: collected_eq consumed_def delivered_def split: pool_run.splits)
    with ne True show ?thesis
      by (simp add: find_similar_tickets_alt sort_by_combined_def py_take_def)
  qed
qed

text \<open>A candidate whose content is the number 5.\<close>

definition ticket_bad :: ticket where
  "ticket_bad = [''id'' \<mapsto> PyInt 7, ''title'' \<mapsto> PyStr abc, ''content'' \<mapsto> PyInt 5]"

lemma ticket_bad_get:
  "ticket_get ticket_bad ''id'' = PyInt 7"
  "ticket_get ticket_bad ''title'' = PyStr abc"
  "ticket_get ticket_bad ''content'' = PyInt 5"
  by (simp_all add: ticket_get_def ticket_bad_def)

lemma calculate_scores_bad:
  "calculate_scores ascii_lib (PyInt 7, PyStr abc, PyStr abc, PyInt 7, PyInt 5, PyStr abc)
     = Inl AttributeError"
proof -
  have "abc \<noteq> []" by (simp add: abc_eq)
  then have "sequence_similarity ascii_lib (PyStr abc) (PyInt 5) = Inl AttributeError"
    by simp
  then show ?thesis by (simp del: sequence_similarity.simps)
qed

lemma find_bad_abc:
  "find_similar_tickets example_service ascii_lib PoolFailed (ticket_abc 1)
     [ticket_bad, ticket_abc 2] 0 10 = [result_abc 2 2]"
proof -
  have p: "prepare_args example_service (ticket_abc 1) [ticket_bad, ticket_abc 2]
      = [(PyInt 7, PyStr abc, PyStr abc, PyInt 7, PyInt 5, PyStr abc),
         (PyInt 2, PyStr abc, PyStr abc, PyInt 2, PyStr abc, PyStr abc)]"
    by (simp add: prepare_args_def example_service_def ticket_abc_get ticket_bad_get)
  have b: "\<not> passes 0 (calculate_single_similarity ascii_lib
      (PyInt 7, PyStr abc, PyStr abc, PyInt 7, PyInt 5, PyStr abc))"
    using calculate_scores_bad by (rule error_result_not_passes)
  have g: "passes 0 (result_abc 2 2)" by (simp add: passes_abc)
  show ?thesis
    using b g
    by (simp add: find_similar_tickets_alt p collected_eq consumed_def
          result_abc_def[symmetric] sort_by_combined_def py_take_def
          del: calculate_single_similarity.simps)
qed

text \<open>
  C3, counterexample. The computation for the malformed candidate raises, the threshold
  is 0, and the returned list holds the result of the other candidate only: no entry with
  the \<open>error\<close> field set is emitted for the malformed one.
\<close>

theorem error_result_is_not_returned:
  "calculate_scores ascii_lib
     (ticket_get ticket_bad ''id'', ticket_get (ticket_abc 1) ''content'',
      ticket_get (ticket_abc 1) ''title'', ticket_get ticket_bad ''id'',
      ticket_get ticket_bad ''content'', ticket_get ticket_bad ''title'') = Inl AttributeError
   \<and> find_similar_tickets example_service ascii_lib PoolFailed (ticket_abc 1)
       [ticket_bad, ticket_abc 2] 0 10 = [result_abc 2 2]
   \<and> error (result_abc 2 2) = None
   \<and> id2 (result_abc 2 2) = PyInt 2"
  by (simp add: ticket_bad_get ticket_abc_get calculate_scores_bad find_bad_abc result_abc_fields
        del: calculate_scores.simps)

text \<open>A service whose cap is two candidates.\<close>

definition small_service :: service where
  "small_service = \<lparr>max_workers = 2, max_items = 2\<rparr>"

text \<open>
  C3, witness: a batch of three under a cap of two, the malformed candidate at position 0.
\<close>

theorem find_similar_tickets_isolates_failure_witness:
  "calculate_single_similarity ascii_lib
        (PyInt 7, PyStr abc, PyStr abc, PyInt 7, PyInt 5, PyStr abc)
      = \<lparr>id1 = PyInt 7, id2 = PyInt 7,
         sequence = None, cosine = None, jaccard = None, levenshtein = None, tfidf = None,
         error = Some AttributeError, combined = 0\<rparr>
   \<and> find_similar_tickets small_service ascii_lib PoolFailed (ticket_abc 1)
       [ticket_bad, ticket_abc 2, ticket_abc 3] 0 10
     = find_similar_tickets (small_service\<lparr>max_items := 3\<rparr>) ascii_lib PoolFailed
       (ticket_abc 1) [ticket_abc 2] 0 10"
proof -
  have cp: "capped small_service [ticket_bad, ticket_abc 2, ticket_abc 3]
      = [ticket_bad, ticket_abc 2]"
    by (simp add: capped_def small_service_def py_take_def)
  have i: "0 < length (capped small_service [ticket_bad, ticket_abc 2, ticket_abc 3])"
    by (simp add: cp)
  have r: "calculate_scores ascii_lib
        (ticket_get (capped small_service [ticket_bad, ticket_abc 2, ticket_abc 3] ! 0) ''id'',
         ticket_get (ticket_abc 1) ''content'', ticket_get (ticket_abc 1) ''title'',
         ticket_get (capped small_service [ticket_bad, ticket_abc 2, ticket_abc 3] ! 0) ''id'',
         ticket_get (capped small_service [ticket_bad, ticket_abc 2, ticket_abc 3] ! 0) ''content'',
         ticket_get (capped small_service [ticket_bad, ticket_abc 2, ticket_abc 3] ! 0) ''title'')
      = Inl AttributeError"
    by (simp add: cp ticket_bad_get ticket_abc_get calculate_scores_bad
          del: calculate_scores.simps)
  show ?thesis
    using find_similar_tickets_isolates_failure[OF i r, of PoolFailed 0 10]
    by (simp add: cp ticket_bad_get ticket_abc_get drop_task_def drop_nth_def
          del: calculate_scores.simps calculate_single_similarity.simps)
qed

subsection \<open>When the pool fails\<close>

text \<open>The sequential fallback of \<open>find_similar_tickets\<close> returns what the pool returns when
  every worker returns and the futures complete in submission order.\<close>

lemma delivered_in_order:
  "delivered args_list (map (\<lambda>i. (i, Returned)) [0..<length args_list]) = args_list"
proof -
  have "delivered args_list (map (\<lambda>i. (i, Returned)) [0..<length args_list])
      = map (\<lambda>i. args_list ! i) [0..<length args_list]"
    by (simp add: delivered_def filter_map comp_def)
  then show ?thesis by (simp add: map_nth)
qed

lemma find_similar_tickets_fallback:
  "find_similar_tickets self L PoolFailed target cands threshold max_results
   = find_similar_tickets self L
       (PoolCompleted (map (\<lambda>i. (i, Returned)) [0..<length (prepare_args self target cands)]))
       target cands threshold max_results"
  by (simp add: find_similar_tickets_alt collected_eq consumed_def delivered_in_order)

text \<open>\<open>calculate_similarity_matrix\<close> has no fallback: its handler only logs.\<close>

lemma calculate_similarity_matrix_pool_failed:
  "calculate_similarity_matrix self L PoolFailed tickets threshold = []"
  by (simp add: calculate_similarity_matrix_def sort_by_combined_def)

lemma matrix_pairs_abc:
  "matrix_pairs [ticket_abc m, ticket_abc n]
     = [(PyInt m, PyStr abc, PyStr abc, PyInt n, PyStr abc, PyStr abc)]"
  by (simp add: matrix_pairs_def ticket_abc_get upt_rec)

text \<open>
  C5, the failing input. Two tickets with the same text and threshold 0.3: when the pool
  fails the matrix is empty, while the concurrent path returns the pair with score 1.
\<close>

theorem calculate_similarity_matrix_no_fallback:
  "calculate_similarity_matrix example_service ascii_lib PoolFailed
     [ticket_abc 1, ticket_abc 2] (3 / 10) = []
   \<and> calculate_similarity_matrix example_service ascii_lib (PoolCompleted [(0, Returned)])
       [ticket_abc 1, ticket_abc 2] (3 / 10) = [result_abc 1 2]
   \<and> combined (result_abc 1 2) = 1"
proof -
  have p: "passes (3 / 10) (result_abc 1 2)" by (simp add: passes_abc)
  show ?thesis
    using p
    by (simp add: calculate_similarity_matrix_def example_service_def matrix_pairs_abc
          sort_by_combined_def collect_completed_eq delivered_def result_abc_def[symmetric]
          result_abc_fields
          del: calculate_single_similarity.simps)
qed

subsection \<open>levenshtein_similarity against the formula of the specification\<close>

text \<open>
  The classic unit-cost edit distance, by the recurrence over prefix lengths:
  \<open>lev a b i j\<close> is the distance between the first \<open>i\<close> characters of \<open>a\<close> and the first \<open>j\<close>
  characters of \<open>b\<close>.
\<close>

fun lev :: "'a list \<Rightarrow> 'a list \<Rightarrow> nat \<Rightarrow> nat \<Rightarrow> nat" where
  "lev a b 0 j = j"
| "lev a b (Suc i) 0 = Suc i"
| "lev a b (Suc i) (Suc j) =
     min (lev a b i (Suc j) + 1)
       (min (lev a b (Suc i) j + 1) (lev a b i j + (if a ! i = b ! j then 0 else 1)))"

definition edit_distance :: "'a list \<Rightarrow> 'a list \<Rightarrow> nat" where
  "edit_distance a b = lev a b (length a) (length b)"

text \<open>
  The similarity as the specification words it: both texts normalised, the edit distance
  of the normalised texts, divided by the longer of the two normalised lengths.
\<close>

definition levenshtein_similarity_by_spec :: "pylib \<Rightarrow> pystr \<Rightarrow> pystr \<Rightarrow> real" where
  "levenshtein_similarity_by_spec L text1 text2 =
     (if text1 = [] \<and> text2 = [] then 1
      else if text1 = [] \<or> text2 = [] then 0
      else 1 - real (edit_distance (norm_str L text1) (norm_str L text2))
               / real (max (length (norm_str L text1)) (length (norm_str L text2))))"

lemma norm_str_ab: "norm_str ascii_lib (ascii ''ab!!'') = ascii ''ab''"
  by (simp add: ascii_def norm_str_def ascii_lib_def ascii_lower_def sub_nonword_def
        strip_ws_def ascii_word_def ascii_space_def)

lemma norm_str_cd: "norm_str ascii_lib (ascii ''cd'') = ascii ''cd''"
  by (simp add: ascii_def norm_str_def ascii_lib_def ascii_lower_def sub_nonword_def
        strip_ws_def ascii_word_def ascii_space_def)

lemma dp_ab_cd:
  "dp_fill (ascii ''ab'') (ascii ''cd'') (dp_init 2 2) ! 2 ! 2 = 2"
  by code_simp

lemma lev_ab_cd: "edit_distance (ascii ''ab'') (ascii ''cd'') = 2"
  by code_simp

text \<open>
  C4, the failing input. \<open>ab!!\<close> and \<open>cd\<close> normalise to \<open>ab\<close> and \<open>cd\<close>, at distance 2. The code
  divides by the longer raw length, 4, and returns 0.5; the formula of the specification
  divides by the longer normalised length, 2, and gives 0.
\<close>

theorem levenshtein_similarity_raw_length:
  "levenshtein_similarity ascii_lib (PyStr (ascii ''ab!!'')) (PyStr (ascii ''cd'')) = Inr (1 / 2)
   \<and> levenshtein_similarity_by_spec ascii_lib (ascii ''ab!!'') (ascii ''cd'') = 0"
proof -
  have l: "length (ascii ''ab'') = 2" "length (ascii ''cd'') = 2" "length (ascii ''ab!!'') = 4"
    "ascii ''ab!!'' \<noteq> []" "ascii ''cd'' \<noteq> []"
    by (simp_all add: ascii_def)
  have "levenshtein_distance ascii_lib (PyStr (ascii ''ab!!'')) (PyStr (ascii ''cd'')) = Inr 2"
    using l by (simp add: normalize_text_PyStr norm_str_ab norm_str_cd dp_ab_cd
          del: normalize_text.simps)
  then have "levenshtein_similarity ascii_lib (PyStr (ascii ''ab!!'')) (PyStr (ascii ''cd''))
      = Inr (1 / 2)"
    using l by (simp del: levenshtein_distance.simps)
  moreover have "levenshtein_similarity_by_spec ascii_lib (ascii ''ab!!'') (ascii ''cd'') = 0"
    using l by (simp add: levenshtein_similarity_by_spec_def norm_str_ab norm_str_cd lev_ab_cd)
  ultimately show ?thesis by simp
qed

subsection \<open>normalize_text is idempotent\<close>

text \<open>No two spaces in a row.\<close>

fun single_spaced :: "pystr \<Rightarrow> bool" where
  "single_spaced [] = True"
| "single_spaced [c] = True"
| "single_spaced (c # d # cs) = (\<not> (c = 32 \<and> d = 32) \<and> single_spaced (d # cs))"

lemma single_spaced_tl: "single_spaced (c # cs) \<Longrightarrow> single_spaced cs"
  by (cases cs) simp_all

lemma single_spaced_Cons:
  "single_spaced (c # cs) = ((cs \<noteq> [] \<longrightarrow> \<not> (c = 32 \<and> hd cs = 32)) \<and> single_spaced cs)"
  by (cases cs) simp_all

lemma single_spaced_append:
  "single_spaced (a @ b) \<Longrightarrow> single_spaced a \<and> single_spaced b"
proof (induction a)
  case Nil
  then show ?case by simp
next
  case (Cons x a)
  from Cons.prems have "single_spaced (a @ b)" by (simp add: single_spaced_tl)
  with Cons.IH have ih: "single_spaced a" "single_spaced b" by simp_all
  show ?case
  proof (cases a)
    case Nil
    with ih show ?thesis by simp
  next
    case (Cons y a')
    with Cons.prems ih show ?thesis by simp
  qed
qed

lemma collapse_ws_chars:
  "c \<in> set (collapse_ws L t) \<Longrightarrow> c = 32 \<or> (c \<in> set t \<and> \<not> re_space L c)"
proof (induction L t rule: collapse_ws.induct)
  case (1 L)
  then show ?case by simp
next
  case (2 L x xs)
  show ?case
  proof (cases "re_space L x")
    case True
    with 2 show ?thesis by (auto dest: set_dropWhileD)
  next
    case False
    with 2 show ?thesis by auto
  qed
qed

lemma collapse_ws_hd:
  "collapse_ws L t \<noteq> [] \<Longrightarrow> \<not> re_space L (hd t) \<Longrightarrow> hd (collapse_ws L t) = hd t"
  by (cases t) auto

lemma collapse_ws_Nil: "(collapse_ws L t = []) = (t = [])"
  by (cases t) auto

lemma hd_dropWhile_not: "dropWhile P xs \<noteq> [] \<Longrightarrow> \<not> P (hd (dropWhile P xs))"
  using hd_dropWhile by blast

lemma collapse_ws_single_spaced:
  assumes sp: "re_space L 32"
  shows "single_spaced (collapse_ws L t)"
  using sp
proof (induction L t rule: collapse_ws.induct)
  case (1 L)
  then show ?case by simp
next
  case (2 L x xs)
  show ?case
  proof (cases "re_space L x")
    case True
    let ?r = "dropWhile (re_space L) xs"
    have ih: "single_spaced (collapse_ws L ?r)" using 2 True by simp
    have "collapse_ws L ?r \<noteq> [] \<Longrightarrow> hd (collapse_ws L ?r) \<noteq> 32"
    proof -
      assume ne: "collapse_ws L ?r \<noteq> []"
      then have "?r \<noteq> []" by (simp add: collapse_ws_Nil)
      then have ns: "\<not> re_space L (hd ?r)" by (rule hd_dropWhile_not)
      then have "hd (collapse_ws L ?r) = hd ?r" using ne by (simp add: collapse_ws_hd)
      with ns 2 True show ?thesis by auto
    qed
    with ih True show ?thesis by (simp add: single_spaced_Cons)
  next
    case False
    then have "x \<noteq> 32" using 2 by auto
    with False 2 show ?thesis by (simp add: single_spaced_Cons)
  qed
qed

lemma collapse_ws_fixed:
  assumes "\<forall>c \<in> set t. re_space L c \<longrightarrow> c = 32" and "single_spaced t"
  shows "collapse_ws L t = t"
  using assms
proof (induction t)
  case Nil
  then show ?case by simp
next
  case (Cons x xs)
  have ih: "collapse_ws L xs = xs" using Cons by (simp add: single_spaced_Cons)
  show ?case
  proof (cases "re_space L x")
    case False
    with ih show ?thesis by simp
  next
    case True
    then have x: "x = 32" using Cons.prems by simp
    have "dropWhile (re_space L) xs = xs"
    proof (cases xs)
      case Nil
      then show ?thesis by simp
    next
      case (Cons y ys)
      with Cons.prems x have "y \<noteq> 32" by simp
      moreover have "re_space L y \<longrightarrow> y = 32" using Cons.prems Cons by simp
      ultimately show ?thesis using Cons by simp
    qed
    with True x ih show ?thesis by simp
  qed
qed

lemma strip_ws_dropWhile:
  "dropWhile (re_space L) t
     = strip_ws L t @ rev (takeWhile (re_space L) (rev (dropWhile (re_space L) t)))"
proof -
  let ?r = "rev (dropWhile (re_space L) t)"
  have "rev (dropWhile (re_space L) ?r) @ rev (takeWhile (re_space L) ?r)
      = rev (takeWhile (re_space L) ?r @ dropWhile (re_space L) ?r)"
    by (simp only: rev_append)
  also have "\<dots> = rev ?r" by (simp only: takeWhile_dropWhile_id)
  also have "\<dots> = dropWhile (re_space L) t" by (simp only: rev_rev_ident)
  finally show ?thesis by (simp only: strip_ws_def)
qed

lemma strip_ws_decomp: "\<exists>a b. t = a @ strip_ws L t @ b"
proof -
  have "t = takeWhile (re_space L) t @ dropWhile (re_space L) t" by simp
  then have "t = takeWhile (re_space L) t @ strip_ws L t
      @ rev (takeWhile (re_space L) (rev (dropWhile (re_space L) t)))"
    using strip_ws_dropWhile[of L t] by simp
  then show ?thesis by blast
qed

lemma strip_ws_set: "set (strip_ws L t) \<subseteq> set t"
  using strip_ws_decomp[of t L] by (metis Un_iff set_append subsetI)

lemma strip_ws_single_spaced: "single_spaced t \<Longrightarrow> single_spaced (strip_ws L t)"
  using strip_ws_decomp[of t L] by (metis single_spaced_append)

lemma strip_ws_ends:
  "strip_ws L t \<noteq> [] \<Longrightarrow> \<not> re_space L (hd (strip_ws L t)) \<and> \<not> re_space L (last (strip_ws L t))"
proof -
  assume ne: "strip_ws L t \<noteq> []"
  let ?d = "dropWhile (re_space L) t"
  let ?e = "dropWhile (re_space L) (rev ?d)"
  have e: "?e \<noteq> []" using ne by (simp add: strip_ws_def)
  then have "\<not> re_space L (hd ?e)" by (rule hd_dropWhile_not)
  then have l: "\<not> re_space L (last (strip_ws L t))"
    using e by (simp add: strip_ws_def last_rev)
  have d: "?d \<noteq> []"
  proof
    assume a: "?d = []"
    have "?e = []" unfolding a by simp
    with e show False by (rule notE)
  qed
  then have nd: "\<not> re_space L (hd ?d)" by (rule hd_dropWhile_not)
  have "hd ?d = hd (strip_ws L t)"
    using strip_ws_dropWhile[of L t] ne by (metis hd_append2)
  with nd l show ?thesis by simp
qed

lemma strip_ws_fixed:
  assumes "t \<noteq> [] \<longrightarrow> \<not> re_space L (hd t) \<and> \<not> re_space L (last t)"
  shows "strip_ws L t = t"
proof (cases "t = []")
  case True
  then show ?thesis by (simp add: strip_ws_def)
next
  case False
  with assms have h: "\<not> re_space L (hd t)" and l: "\<not> re_space L (last t)" by simp_all
  have "dropWhile (re_space L) t = t" using False h by (cases t) simp_all
  moreover have "dropWhile (re_space L) (rev t) = rev t"
    using False l by (cases "rev t") (simp_all add: last_rev hd_rev)
  ultimately show ?thesis by (simp add: strip_ws_def)
qed


lemma sub_nonword_chars:
  "c \<in> set (sub_nonword L t) \<Longrightarrow> c = 32 \<or> (c \<in> set t \<and> (re_word L c \<or> re_space L c))"
  by (auto simp: sub_nonword_def split: if_splits)

lemma sub_nonword_fixed:
  "\<forall>c \<in> set t. re_word L c \<or> re_space L c \<Longrightarrow> sub_nonword L t = t"
  by (simp add: sub_nonword_def map_idI)

lemma norm_str_chars:
  assumes "c \<in> set (norm_str L s)"
  shows "c = 32 \<or> (re_word L c \<and> \<not> re_space L c \<and> \<not> category_Mn L c
                    \<and> c \<in> set (nfd L (str_lower L s)))"
proof (cases "s = []")
  case True
  with assms show ?thesis by (simp add: norm_str_def)
next
  case False
  let ?F = "filter (\<lambda>c. \<not> category_Mn L c) (nfd L (str_lower L s))"
  from assms False have "c \<in> set (strip_ws L (collapse_ws L (sub_nonword L ?F)))"
    by (simp add: norm_str_def)
  then have "c \<in> set (collapse_ws L (sub_nonword L ?F))"
    using strip_ws_set by blast
  then have "c = 32 \<or> (c \<in> set (sub_nonword L ?F) \<and> \<not> re_space L c)"
    by (rule collapse_ws_chars)
  then show ?thesis
  proof
    assume "c = 32" then show ?thesis by simp
  next
    assume a: "c \<in> set (sub_nonword L ?F) \<and> \<not> re_space L c"
    then have "c = 32 \<or> (c \<in> set ?F \<and> (re_word L c \<or> re_space L c))"
      using sub_nonword_chars by blast
    with a show ?thesis by auto
  qed
qed

lemma norm_str_single_spaced:
  "re_space L 32 \<Longrightarrow> single_spaced (norm_str L s)"
  by (simp add: norm_str_def strip_ws_single_spaced collapse_ws_single_spaced)

lemma norm_str_ends:
  "norm_str L s \<noteq> [] \<Longrightarrow>
   \<not> re_space L (hd (norm_str L s)) \<and> \<not> re_space L (last (norm_str L s))"
  by (cases "s = []") (simp_all add: norm_str_def strip_ws_ends)

lemma norm_str_idempotent:
  assumes sp: "re_space L 32" and mn: "\<not> category_Mn L 32"
    and closure: "\<forall>t. (\<forall>c \<in> set t. c = 32 \<or> (re_word L c \<and> \<not> category_Mn L c
                          \<and> (\<exists>s. c \<in> set (nfd L (str_lower L s)))))
                    \<longrightarrow> str_lower L t = t \<and> nfd L t = t"
  shows "norm_str L (norm_str L s) = norm_str L s"
proof -
  let ?n = "norm_str L s"
  have ch: "\<forall>c \<in> set ?n. c = 32 \<or> (re_word L c \<and> \<not> re_space L c \<and> \<not> category_Mn L c
                    \<and> c \<in> set (nfd L (str_lower L s)))"
    using norm_str_chars by blast
  then have "\<forall>c \<in> set ?n. c = 32 \<or> (re_word L c \<and> \<not> category_Mn L c
                          \<and> (\<exists>s. c \<in> set (nfd L (str_lower L s))))"
    by blast
  with closure have lo: "str_lower L ?n = ?n" and nf: "nfd L ?n = ?n" by blast+
  have "\<forall>c \<in> set ?n. \<not> category_Mn L c" using ch mn by auto
  then have fi: "filter (\<lambda>c. \<not> category_Mn L c) ?n = ?n" by simp
  have "\<forall>c \<in> set ?n. re_word L c \<or> re_space L c" using ch sp by auto
  then have su: "sub_nonword L ?n = ?n" by (rule sub_nonword_fixed)
  have "\<forall>c \<in> set ?n. re_space L c \<longrightarrow> c = 32" using ch by auto
  then have co: "collapse_ws L ?n = ?n"
    using norm_str_single_spaced[OF sp] by (rule collapse_ws_fixed)
  have st: "strip_ws L ?n = ?n"
    by (rule strip_ws_fixed) (use norm_str_ends in blast)
  show ?thesis
    by (subst norm_str_def) (simp add: lo nf fi su co st)
qed

text \<open>
  C8. The output of \<open>normalize_text\<close> holds only single spaces and word characters that are
  neither whitespace nor combining marks, and it has no leading or trailing whitespace;
  normalising it again changes nothing. The three hypotheses are facts about the library:
  the space is whitespace, the space is not a combining mark, and a text made of spaces and
  of word characters that lowercasing and NFD produce is left unchanged by lowercasing and
  by NFD.
\<close>

theorem normalize_text_idempotent:
  assumes sp: "re_space L 32" and mn: "\<not> category_Mn L 32"
    and closure: "\<forall>t. (\<forall>c \<in> set t. c = 32 \<or> (re_word L c \<and> \<not> category_Mn L c
                          \<and> (\<exists>s. c \<in> set (nfd L (str_lower L s)))))
                    \<longrightarrow> str_lower L t = t \<and> nfd L t = t"
  shows "\<exists>n. normalize_text L (PyStr s) = Inr n
           \<and> normalize_text L (PyStr n) = Inr n
           \<and> (\<forall>c \<in> set n. c = 32 \<or> (re_word L c \<and> \<not> re_space L c \<and> \<not> category_Mn L c))
           \<and> single_spaced n
           \<and> (n \<noteq> [] \<longrightarrow> \<not> re_space L (hd n) \<and> \<not> re_space L (last n))"
proof (intro exI conjI)
  show "normalize_text L (PyStr s) = Inr (norm_str L s)" by (rule normalize_text_PyStr)
  show "normalize_text L (PyStr (norm_str L s)) = Inr (norm_str L s)"
    by (simp only: normalize_text_PyStr norm_str_idempotent[OF sp mn closure])
  show "\<forall>c \<in> set (norm_str L s).
          c = 32 \<or> (re_word L c \<and> \<not> re_space L c \<and> \<not> category_Mn L c)"
    using norm_str_chars by blast
  show "single_spaced (norm_str L s)" using sp by (rule norm_str_single_spaced)
  show "norm_str L s \<noteq> [] \<longrightarrow>
          \<not> re_space L (hd (norm_str L s)) \<and> \<not> re_space L (last (norm_str L s))"
    using norm_str_ends by blast
qed


text \<open>The ASCII library satisfies the hypotheses.\<close>

lemma ascii_lower_not_upper:
  "c \<in> set (ascii_lower s) \<Longrightarrow> \<not> (65 \<le> c \<and> c \<le> 90)"
  by (auto simp: ascii_lower_def)

lemma ascii_lower_fixed:
  "\<forall>c \<in> set t. \<not> (65 \<le> c \<and> c \<le> 90) \<Longrightarrow> ascii_lower t = t"
  by (simp add: ascii_lower_def map_idI)

lemma ascii_lib_closure:
  "\<forall>t. (\<forall>c \<in> set t. c = 32 \<or> (re_word ascii_lib c \<and> \<not> category_Mn ascii_lib c
                          \<and> (\<exists>s. c \<in> set (nfd ascii_lib (str_lower ascii_lib s)))))
        \<longrightarrow> str_lower ascii_lib t = t \<and> nfd ascii_lib t = t"
proof (intro allI impI)
  fix t
  assume a: "\<forall>c \<in> set t. c = 32 \<or> (re_word ascii_lib c \<and> \<not> category_Mn ascii_lib c
                          \<and> (\<exists>s. c \<in> set (nfd ascii_lib (str_lower ascii_lib s))))"
  have "\<forall>c \<in> set t. \<not> (65 \<le> c \<and> c \<le> 90)"
  proof
    fix c assume "c \<in> set t"
    with a have "c = 32 \<or> (\<exists>s. c \<in> set (ascii_lower s))" by (auto simp: ascii_lib_def)
    then show "\<not> (65 \<le> c \<and> c \<le> 90)" using ascii_lower_not_upper by auto
  qed
  then have "ascii_lower t = t" by (rule ascii_lower_fixed)
  then show "str_lower ascii_lib t = t \<and> nfd ascii_lib t = t" by (simp add: ascii_lib_def)
qed

text \<open>C8, witness: a text with capitals, punctuation and runs of spaces.\<close>

theorem normalize_text_idempotent_witness:
  "normalize_text ascii_lib (PyStr (ascii ''  HELLO,  World!! '')) = Inr (ascii ''hello world'')
   \<and> normalize_text ascii_lib (PyStr (ascii ''hello world'')) = Inr (ascii ''hello world'')"
proof -
  have sp: "re_space ascii_lib 32" by (simp add: ascii_lib_def ascii_space_def)
  have mn: "\<not> category_Mn ascii_lib 32" by (simp add: ascii_lib_def)
  have e: "normalize_text ascii_lib (PyStr (ascii ''  HELLO,  World!! ''))
      = Inr (ascii ''hello world'')"
    by (simp add: ascii_def ascii_lib_def ascii_lower_def sub_nonword_def strip_ws_def
          ascii_word_def ascii_space_def)
  from normalize_text_idempotent[OF sp mn ascii_lib_closure, of "ascii ''  HELLO,  World!! ''"]
  obtain n where "normalize_text ascii_lib (PyStr (ascii ''  HELLO,  World!! '')) = Inr n"
    and "normalize_text ascii_lib (PyStr n) = Inr n"
    by blast
  with e show ?thesis by (simp del: normalize_text.simps)
qed

subsection \<open>The matrix of levenshtein_distance holds the edit distance\<close>

lemma lev_0_right: "lev a b i 0 = i"
  by (cases i) simp_all

lemma lev_step_down: "lev a b (Suc i) j \<le> lev a b i j + 1"
  by (cases j) (simp_all add: lev_0_right)

lemma lev_step_right: "lev a b i (Suc j) \<le> lev a b i j + 1"
  by (cases i) simp_all

lemma lev_back_right: "lev a b i j \<le> lev a b i (Suc j) + 1"
proof (induction i arbitrary: j)
  case 0
  then show ?case by simp
next
  case (Suc i)
  have "lev a b (Suc i) j \<le> lev a b i j + 1" by (rule lev_step_down)
  moreover have "lev a b i j \<le> lev a b i (Suc j) + 1" by (rule Suc.IH)
  ultimately show ?case by simp
qed

lemma lev_back_down: "lev a b i j \<le> lev a b (Suc i) j + 1"
proof (induction j arbitrary: i)
  case 0
  then show ?case by (simp add: lev_0_right)
next
  case (Suc j)
  have "lev a b i (Suc j) \<le> lev a b i j + 1" by (rule lev_step_right)
  moreover have "lev a b i j \<le> lev a b (Suc i) j + 1" by (rule Suc.IH)
  ultimately show ?case by simp
qed

lemma lev_as_code:
  "lev a b (Suc i) (Suc j) =
     (if a ! i = b ! j then lev a b i j
      else 1 + min (lev a b i (Suc j)) (min (lev a b (Suc i) j) (lev a b i j)))"
  using lev_back_right[of a b i j] lev_back_down[of a b i j]
  by simp

text \<open>
  The shape of the matrix, and the loop invariant: the first row, the first column and
  every cell before \<open>(i, j)\<close> in row-major order hold the distance of the prefixes.
\<close>

definition dims :: "nat \<Rightarrow> nat \<Rightarrow> nat list list \<Rightarrow> bool" where
  "dims m n dp = (length dp = m + 1 \<and> (\<forall>i \<le> m. length (dp ! i) = n + 1))"

definition filled ::
  "'a list \<Rightarrow> 'a list \<Rightarrow> nat \<Rightarrow> nat \<Rightarrow> nat \<Rightarrow> nat \<Rightarrow> nat list list \<Rightarrow> bool" where
  "filled a b m n i j dp =
     (dims m n dp \<and>
      (\<forall>i' j'. i' \<le> m \<and> j' \<le> n \<and> (i' = 0 \<or> j' = 0 \<or> i' < i \<or> (i' = i \<and> j' < j))
         \<longrightarrow> dp ! i' ! j' = lev a b i' j'))"

lemma dims_replicate: "dims m n (replicate (m + 1) (replicate (n + 1) 0))"
  by (simp add: dims_def del: replicate_Suc)

lemma dims_update: "dims m n dp \<Longrightarrow> dims m n (dp[i := (dp ! i)[j := x]])"
  by (cases "i < length dp") (simp_all add: dims_def nth_list_update)

lemma nth2_update:
  "i < length dp \<Longrightarrow> j < length (dp ! i) \<Longrightarrow>
   dp[i := (dp ! i)[j := x]] ! i' ! j' = (if i' = i \<and> j' = j then x else dp ! i' ! j')"
  by (auto simp: nth_list_update)

lemma dims_lengths: "dims m n dp \<Longrightarrow> i \<le> m \<Longrightarrow> j \<le> n \<Longrightarrow> i < length dp \<and> j < length (dp ! i)"
  by (simp add: dims_def)

lemma init_column:
  "k \<le> m + 1 \<Longrightarrow>
   dims m n (fold (\<lambda>i dp. dp[i := (dp ! i)[0 := i]]) [0..<k] (replicate (m + 1) (replicate (n + 1) 0)))
   \<and> (\<forall>i < k. fold (\<lambda>i dp. dp[i := (dp ! i)[0 := i]]) [0..<k]
                  (replicate (m + 1) (replicate (n + 1) 0)) ! i ! 0 = i)"
proof (induction k)
  case 0
  then show ?case using dims_replicate[of m n] by simp
next
  case (Suc k)
  let ?D = "fold (\<lambda>i dp. dp[i := (dp ! i)[0 := i]]) [0..<k]
              (replicate (m + 1) (replicate (n + 1) 0))"
  from Suc have d: "dims m n ?D" and v: "\<forall>i < k. ?D ! i ! 0 = i" and k: "k \<le> m" by simp_all
  have l: "k < length ?D \<and> 0 < length (?D ! k)" using dims_lengths[OF d k, of 0] by simp
  have "dims m n (?D[k := (?D ! k)[0 := k]])" using d by (rule dims_update)
  moreover have "\<forall>i < Suc k. ?D[k := (?D ! k)[0 := k]] ! i ! 0 = i"
    using v l by (simp add: nth2_update less_Suc_eq)
  ultimately show ?case by simp
qed

lemma init_row:
  assumes d0: "dims m n dp0" and c0: "\<forall>i \<le> m. dp0 ! i ! 0 = i"
  shows "k \<le> n + 1 \<Longrightarrow>
   dims m n (fold (\<lambda>j dp. dp[0 := (dp ! 0)[j := j]]) [0..<k] dp0)
   \<and> (\<forall>i \<le> m. fold (\<lambda>j dp. dp[0 := (dp ! 0)[j := j]]) [0..<k] dp0 ! i ! 0 = i)
   \<and> (\<forall>j < k. fold (\<lambda>j dp. dp[0 := (dp ! 0)[j := j]]) [0..<k] dp0 ! 0 ! j = j)"
proof (induction k)
  case 0
  then show ?case using d0 c0 by simp
next
  case (Suc k)
  let ?D = "fold (\<lambda>j dp. dp[0 := (dp ! 0)[j := j]]) [0..<k] dp0"
  from Suc have d: "dims m n ?D" and c: "\<forall>i \<le> m. ?D ! i ! 0 = i"
    and r: "\<forall>j < k. ?D ! 0 ! j = j" and k: "k \<le> n" by simp_all
  have l: "0 < length ?D \<and> k < length (?D ! 0)" using dims_lengths[OF d _ k, of 0] by simp
  have "dims m n (?D[0 := (?D ! 0)[k := k]])" using d by (rule dims_update)
  moreover have "\<forall>i \<le> m. ?D[0 := (?D ! 0)[k := k]] ! i ! 0 = i"
    using c l by (simp add: nth2_update)
  moreover have "\<forall>j < Suc k. ?D[0 := (?D ! 0)[k := k]] ! 0 ! j = j"
    using r l by (simp add: nth2_update less_Suc_eq)
  ultimately show ?case by simp
qed

lemma dp_init_filled: "filled a b m n 1 1 (dp_init m n)"
proof -
  let ?D1 = "fold (\<lambda>i dp. dp[i := (dp ! i)[0 := i]]) [0..<m + 1]
               (replicate (m + 1) (replicate (n + 1) 0))"
  have d1: "dims m n ?D1" and c1: "\<forall>i \<le> m. ?D1 ! i ! 0 = i"
    using init_column[of "m + 1" m n] by (simp_all add: less_Suc_eq_le)
  have e: "dp_init m n = fold (\<lambda>j dp. dp[0 := (dp ! 0)[j := j]]) [0..<n + 1] ?D1"
    by (simp add: dp_init_def Let_def)
  have d: "dims m n (dp_init m n)" and c: "\<forall>i \<le> m. dp_init m n ! i ! 0 = i"
    and r: "\<forall>j \<le> n. dp_init m n ! 0 ! j = j"
    unfolding e using init_row[OF d1 c1, of "n + 1"] by (simp_all add: less_Suc_eq_le)
  show ?thesis
    unfolding filled_def using d c r by (auto simp: lev_0_right)
qed

lemma dp_cell_filled:
  assumes f: "filled a b m n i j dp" and i: "1 \<le> i" "i \<le> m" and j: "1 \<le> j" "j \<le> n"
  shows "filled a b m n i (Suc j) (dp_cell a b i j dp)"
proof -
  obtain i0 j0 where i0: "i = Suc i0" and j0: "j = Suc j0"
    using i j by (metis One_nat_def Suc_le_D)
  from f have d: "dims m n dp"
    and v: "\<And>i' j'. i' \<le> m \<Longrightarrow> j' \<le> n \<Longrightarrow> i' = 0 \<or> j' = 0 \<or> i' < i \<or> (i' = i \<and> j' < j)
              \<Longrightarrow> dp ! i' ! j' = lev a b i' j'"
    by (simp_all add: filled_def)
  have up: "dp ! i0 ! Suc j0 = lev a b i0 (Suc j0)" using v[of i0 j] i j i0 j0 by simp
  have left: "dp ! Suc i0 ! j0 = lev a b (Suc i0) j0" using v[of i j0] i j i0 j0 by simp
  have diag: "dp ! i0 ! j0 = lev a b i0 j0" using v[of i0 j0] i j i0 j0 by simp
  define x where "x = lev a b i j"
  have cell: "dp_cell a b i j dp = dp[i := (dp ! i)[j := x]]"
    unfolding x_def dp_cell_def i0 j0
    using up left diag by (simp add: lev_as_code del: lev.simps)
  have li: "i < length dp" and lj: "j < length (dp ! i)"
    using dims_lengths[OF d i(2) j(2)] by simp_all
  have d': "dims m n (dp[i := (dp ! i)[j := x]])"
    using d by (rule dims_update)
  have "dp[i := (dp ! i)[j := x]] ! i' ! j' = lev a b i' j'"
    if "i' \<le> m" "j' \<le> n" "i' = 0 \<or> j' = 0 \<or> i' < i \<or> (i' = i \<and> j' < Suc j)" for i' j'
  proof (cases "i' = i \<and> j' = j")
    case True
    then show ?thesis using li lj by (simp add: x_def nth2_update)
  next
    case False
    then have "dp[i := (dp ! i)[j := x]] ! i' ! j' = dp ! i' ! j'"
      using li lj by (auto simp: nth2_update)
    moreover have "i' = 0 \<or> j' = 0 \<or> i' < i \<or> (i' = i \<and> j' < j)"
      using that False by auto
    ultimately show ?thesis using v that by simp
  qed
  with d' show ?thesis unfolding cell filled_def by blast
qed

lemma row_filled:
  assumes i: "1 \<le> i" "i \<le> m"
  shows "k \<le> n \<Longrightarrow> filled a b m n i 1 dp \<Longrightarrow>
         filled a b m n i (Suc k) (fold (\<lambda>j dp. dp_cell a b i j dp) [1..<Suc k] dp)"
proof (induction k)
  case 0
  then show ?case by simp
next
  case (Suc k)
  then have "filled a b m n i (Suc k) (fold (\<lambda>j dp. dp_cell a b i j dp) [1..<Suc k] dp)"
    by simp
  then have "filled a b m n i (Suc (Suc k))
      (dp_cell a b i (Suc k) (fold (\<lambda>j dp. dp_cell a b i j dp) [1..<Suc k] dp))"
    using i Suc.prems by (intro dp_cell_filled) simp_all
  then show ?case by simp
qed

lemma next_row:
  assumes "filled a b m n i (Suc n) dp"
  shows "filled a b m n (Suc i) 1 dp"
proof -
  from assms have d: "dims m n dp"
    and v: "\<And>i' j'. i' \<le> m \<Longrightarrow> j' \<le> n \<Longrightarrow>
              i' = 0 \<or> j' = 0 \<or> i' < i \<or> (i' = i \<and> j' < Suc n)
              \<Longrightarrow> dp ! i' ! j' = lev a b i' j'"
    by (simp_all add: filled_def)
  have "dp ! i' ! j' = lev a b i' j'"
    if "i' \<le> m" "j' \<le> n" "i' = 0 \<or> j' = 0 \<or> i' < Suc i \<or> (i' = Suc i \<and> j' < 1)" for i' j'
  proof -
    have "i' = 0 \<or> j' = 0 \<or> i' < i \<or> (i' = i \<and> j' < Suc n)" using that by auto
    then show ?thesis using that v by simp
  qed
  with d show ?thesis unfolding filled_def by blast
qed

lemma rows_filled:
  "k \<le> m \<Longrightarrow> filled a b m n 1 1 dp \<Longrightarrow>
   filled a b m n (Suc k) 1
     (fold (\<lambda>i dp. fold (\<lambda>j dp. dp_cell a b i j dp) [1..<n + 1] dp) [1..<Suc k] dp)"
proof (induction k)
  case 0
  then show ?case by simp
next
  case (Suc k)
  let ?D = "fold (\<lambda>i dp. fold (\<lambda>j dp. dp_cell a b i j dp) [1..<n + 1] dp) [1..<Suc k] dp"
  from Suc have "filled a b m n (Suc k) 1 ?D" by simp
  then have "filled a b m n (Suc k) (Suc n)
      (fold (\<lambda>j dp. dp_cell a b (Suc k) j dp) [1..<Suc n] ?D)"
    using Suc.prems by (intro row_filled) simp_all
  then have "filled a b m n (Suc (Suc k)) 1
      (fold (\<lambda>j dp. dp_cell a b (Suc k) j dp) [1..<Suc n] ?D)"
    by (rule next_row)
  then show ?case by simp
qed

lemma dp_fill_lev:
  "dp_fill a b (dp_init (length a) (length b)) ! length a ! length b = edit_distance a b"
proof -
  have "filled a b (length a) (length b) (Suc (length a)) 1
      (dp_fill a b (dp_init (length a) (length b)))"
    unfolding dp_fill_def
    using rows_filled[OF le_refl dp_init_filled, of a b "length a" "length b"] by simp
  then show ?thesis by (simp add: filled_def edit_distance_def)
qed


text \<open>
  What the code computes on two non-empty strings: the edit distance of the normalised
  texts over the longer of the two raw lengths. The empty cases are as C4 states them.
\<close>

lemma levenshtein_similarity_on_strings:
  assumes "a \<noteq> []" "b \<noteq> []"
  shows "levenshtein_similarity L (PyStr a) (PyStr b) =
     Inr (1 - real (edit_distance (norm_str L a) (norm_str L b))
              / real (max (length a) (length b)))"
proof -
  have "levenshtein_distance L (PyStr a) (PyStr b)
      = Inr (edit_distance (norm_str L a) (norm_str L b))"
    using assms by (simp add: normalize_text_PyStr dp_fill_lev del: normalize_text.simps)
  moreover have "0 < max (length a) (length b)"
    using assms(1) by (simp add: less_max_iff_disj)
  ultimately show ?thesis
    using assms by (simp add: Let_def del: levenshtein_distance.simps)
qed

lemma levenshtein_similarity_empty:
  "levenshtein_similarity L (PyStr []) (PyStr []) = Inr 1"
  "b \<noteq> [] \<Longrightarrow> levenshtein_similarity L (PyStr []) (PyStr b) = Inr 0"
  "a \<noteq> [] \<Longrightarrow> levenshtein_similarity L (PyStr a) (PyStr []) = Inr 0"
  by simp_all

end
